theory Spec2Isabelle
  imports Complex_Main
begin

section \<open>Python values and the article record\<close>

text \<open>
  The aggregator of \<^verbatim>\<open>claud_agent/news_fetcher.py\<close> handles values decoded from JSON
  and stores them in the fields of \<^verbatim>\<open>NewsArticle\<close> without checking their type, so
  a field holds a Python value. A dictionary is an association list whose keys are
  strings (the keys of a JSON object); \<open>map_of\<close> looks a key up. Text is Latin-1
  text: a \<open>char\<close> is one code point below 256.
\<close>

datatype pyval =
    PNone
  | PBool bool
  | PInt int
  | PFloat real
  | PStr string
  | PList "pyval list"
  | PDict "(string \<times> pyval) list"

text \<open>Python's truth value of an object, as \<^verbatim>\<open>if x\<close> and \<^verbatim>\<open>not x\<close> take it.\<close>

fun truthy :: "pyval \<Rightarrow> bool" where
  "truthy PNone = False"
| "truthy (PBool b) = b"
| "truthy (PInt i) = (i \<noteq> 0)"
| "truthy (PFloat r) = (r \<noteq> 0)"
| "truthy (PStr s) = (s \<noteq> [])"
| "truthy (PList xs) = (xs \<noteq> [])"
| "truthy (PDict kvs) = (kvs \<noteq> [])"

datatype error =
    ZeroDivisionError
  | AttributeError
  | TypeError
  | OSError
  | OtherError

record NewsArticle =
  title :: pyval
  summary :: pyval
  url :: pyval
  published_date :: pyval
  source :: pyval
  category :: pyval
  content :: pyval
  author :: pyval
  image_url :: pyval
  sentiment_score :: pyval

text \<open>\<^verbatim>\<open>xs[:n]\<close>: a negative \<open>n\<close> counts from the end of the list.\<close>

definition py_slice_to :: "'a list \<Rightarrow> int \<Rightarrow> 'a list" where
  "py_slice_to xs n =
     (if 0 \<le> n then take (nat n) xs else take (length xs - nat (- n)) xs)"

section \<open>Strings\<close>

text \<open>
  \<^verbatim>\<open>str.isspace\<close> below 256: tab to carriage return, the four separators 28 to 31,
  space, next line (133) and no-break space (160).
\<close>

definition isspace :: "char \<Rightarrow> bool" where
  "isspace c = (of_char c \<in> {9, 10, 11, 12, 13, 28, 29, 30, 31, 32, 133, 160 :: nat})"

text \<open>
  The upper-case letters below 256: A to Z, and 192 to 222 without the multiplication
  sign 215. Each has its lower-case letter 32 places further; no other code point
  below 256 is changed by \<^verbatim>\<open>str.lower()\<close>.
\<close>

definition isupper :: "char \<Rightarrow> bool" where
  "isupper c =
     (let n = of_char c :: nat
      in (65 \<le> n \<and> n \<le> 90) \<or> (192 \<le> n \<and> n \<le> 214) \<or> (216 \<le> n \<and> n \<le> 222))"

definition lower_char :: "char \<Rightarrow> char" where
  "lower_char c = (if isupper c then char_of ((of_char c :: nat) + 32) else c)"

text \<open>\<^verbatim>\<open>str.lower()\<close>.\<close>

definition lower :: "string \<Rightarrow> string" where
  "lower s = map lower_char s"

text \<open>
  \<^verbatim>\<open>str.split()\<close> with no argument: the maximal runs of characters that are not
  whitespace, in order. \<open>word\<close> is the run read so far.
\<close>

fun split_from :: "string \<Rightarrow> string \<Rightarrow> string list" where
  "split_from word [] = (if word = [] then [] else [word])"
| "split_from word (c # cs) =
     (if isspace c then (if word = [] then split_from [] cs else word # split_from [] cs)
      else split_from (word @ [c]) cs)"

definition split :: "string \<Rightarrow> string list" where
  "split s = split_from [] s"

section \<open>Deduplication\<close>

text \<open>
  \<^verbatim>\<open>len(title_words & seen_words) / len(title_words | seen_words) > 0.7\<close>. The division
  raises when both sets are empty. The quotient of two list lengths and the constant
  \<^verbatim>\<open>0.7\<close> are floats in the source; for sets of fewer than \<open>2^49\<close> words the
  rounded comparison and the exact one agree, and the model compares exactly.
\<close>

definition similar :: "string set \<Rightarrow> string set \<Rightarrow> error + bool" where
  "similar title_words seen_words =
     (if card (title_words \<union> seen_words) = 0 then Inl ZeroDivisionError
      else Inr (real (card (title_words \<inter> seen_words))
                  / real (card (title_words \<union> seen_words)) > 7 / 10))"

text \<open>
  The inner loop over \<^verbatim>\<open>seen_titles\<close>, with its \<^verbatim>\<open>break\<close>: the value of
  \<^verbatim>\<open>is_duplicate\<close> when the loop ends. \<^verbatim>\<open>seen_titles\<close> is a Python set, kept here
  as a list without repetitions; \<open>is_duplicate_order\<close> below shows that the order in
  which the set is traversed does not change the outcome.
\<close>

fun is_duplicate :: "string set \<Rightarrow> string list \<Rightarrow> error + bool" where
  "is_duplicate title_words [] = Inr False"
| "is_duplicate title_words (seen_title # rest) =
     (case similar title_words (set (split seen_title)) of
        Inl e \<Rightarrow> Inl e
      | Inr True \<Rightarrow> Inr True
      | Inr False \<Rightarrow> is_duplicate title_words rest)"

text \<open>
  The outer loop of \<^verbatim>\<open>_deduplicate_articles\<close> with its two accumulators.
  \<^verbatim>\<open>article.title.lower()\<close> raises AttributeError on a title that is not a string.
\<close>

fun dedup_loop ::
  "NewsArticle list \<Rightarrow> NewsArticle list \<Rightarrow> string list \<Rightarrow> error + NewsArticle list" where
  "dedup_loop [] unique_articles seen_titles = Inr unique_articles"
| "dedup_loop (article # rest) unique_articles seen_titles =
     (case title article of
        PStr t \<Rightarrow>
          (case is_duplicate (set (split (lower t))) seen_titles of
             Inl e \<Rightarrow> Inl e
           | Inr True \<Rightarrow> dedup_loop rest unique_articles seen_titles
           | Inr False \<Rightarrow>
               dedup_loop rest (unique_articles @ [article])
                 (List.insert (lower t) seen_titles))
      | _ \<Rightarrow> Inl AttributeError)"

definition deduplicate_articles :: "NewsArticle list \<Rightarrow> error + NewsArticle list" where
  "deduplicate_articles articles = dedup_loop articles [] []"

text \<open>The token set of a title.\<close>

definition title_words :: "string \<Rightarrow> string set" where
  "title_words t = set (split (lower t))"

text \<open>The Jaccard similarity of two token sets, and of the token sets of two titles.\<close>

definition similarity :: "string set \<Rightarrow> string set \<Rightarrow> real" where
  "similarity A B = real (card (A \<inter> B)) / real (card (A \<union> B))"

definition jaccard :: "string \<Rightarrow> string \<Rightarrow> real" where
  "jaccard s t = similarity (title_words s) (title_words t)"

text \<open>An article built from a title alone, for examples.\<close>

definition titled :: "string \<Rightarrow> NewsArticle" where
  "titled t = \<lparr> title = PStr t, summary = PStr ''s'', url = PStr [],
      published_date = PStr [], source = PStr ''Unknown'', category = PStr [],
      content = PNone, author = PNone, image_url = PNone, sentiment_score = PNone \<rparr>"

section \<open>The world outside the aggregator\<close>

text \<open>
  The aggregator calls the network, the feed parser, the random generator and the
  clock. Each call is an event appended to a trace, and what the call returns is
  given by an environment as a function of the trace so far, so that two calls with
  the same arguments may return different results. \<open>RateLimit\<close> marks a call of
  \<^verbatim>\<open>_rate_limit\<close>, whose blocking delay depends on real time only and changes no
  value. Logging and \<^verbatim>\<open>LogOperation\<close> (whose \<^verbatim>\<open>__exit__\<close> returns nothing, so
  that an exception passes through it) change no value either and are left out.
\<close>

record params =
  p_q :: string
  p_lang :: string
  p_country :: string
  p_max :: int
  p_apikey :: string

datatype event =
    RateLimit
  | SessionGet string params
  | Sleep real
  | FeedparserParse string
  | DatetimeNow

text \<open>
  One attempt, \<^verbatim>\<open>session.get\<close>, \<^verbatim>\<open>raise_for_status\<close> and \<^verbatim>\<open>response.json()\<close>:
  the decoded body, an exception of class \<^verbatim>\<open>RequestException\<close> (a transport or HTTP
  failure), or an exception of another class.
\<close>

datatype http_outcome = Json pyval | RequestException | OtherException

text \<open>
  An entry of a parsed feed. A field is \<open>None\<close> when the entry has no such key.
  \<open>e_published_parsed\<close> is \<open>None\<close> when the entry has no parsed date (or a false
  one), and otherwise holds what \<^verbatim>\<open>datetime(*entry.published_parsed[:6]).isoformat()\<close>
  evaluates to: a string, or an exception.
\<close>

datatype isoformat = Iso string | DatetimeRaises

record feed_entry =
  e_title :: "string option"
  e_summary :: "string option"
  e_description :: "string option"
  e_link :: "string option"
  e_published :: "string option"
  e_published_parsed :: "isoformat option"
  e_author :: "string option"

record feed =
  bozo :: bool
  entries :: "feed_entry list"
  feed_title :: "string option"

datatype feed_outcome = Parsed feed | ParseRaises

record env =
  session_get :: "event list \<Rightarrow> string \<Rightarrow> params \<Rightarrow> http_outcome"
  random_uniform :: "event list \<Rightarrow> real"
  feedparser_parse :: "event list \<Rightarrow> string \<Rightarrow> feed_outcome"
  datetime_now :: "event list \<Rightarrow> string"
  datetime_today :: "event list \<Rightarrow> string"
  open_for_writing :: "string \<Rightarrow> bool"

text \<open>The fields of \<^verbatim>\<open>NoobieConfig\<close> (\<^verbatim>\<open>config.py\<close>) that the aggregator reads.\<close>

record NoobieConfig =
  news_api_key :: "string option"
  mock_mode :: bool
  max_articles :: int
  news_categories :: "string list"

section \<open>Requests with retry\<close>

text \<open>
  \<^verbatim>\<open>_make_request_with_retry\<close>: the loop over \<^verbatim>\<open>range(max_retries)\<close>. The function
  returns the decoded body of the first attempt that succeeds and \<^verbatim>\<open>None\<close> when the
  loop ends. The wait is computed after every failure and slept only when another
  attempt follows. Only \<^verbatim>\<open>RequestException\<close> is caught.
\<close>

fun request_attempts ::
  "env \<Rightarrow> string \<Rightarrow> params \<Rightarrow> nat \<Rightarrow> nat list \<Rightarrow> event list
     \<Rightarrow> (error + pyval) \<times> event list" where
  "request_attempts env req_url ps max_retries [] tr = (Inr PNone, tr)"
| "request_attempts env req_url ps max_retries (attempt # rest) tr =
     (let tr1 = tr @ [RateLimit, SessionGet req_url ps] in
      case session_get env tr req_url ps of
        Json data \<Rightarrow> (Inr data, tr1)
      | OtherException \<Rightarrow> (Inl OtherError, tr1)
      | RequestException \<Rightarrow>
          (let wait_time = 2 ^ attempt + random_uniform env tr1 in
           if int attempt < int max_retries - 1
           then request_attempts env req_url ps max_retries rest (tr1 @ [Sleep wait_time])
           else request_attempts env req_url ps max_retries rest tr1))"

definition make_request_with_retry ::
  "env \<Rightarrow> string \<Rightarrow> params \<Rightarrow> nat \<Rightarrow> event list \<Rightarrow> (error + pyval) \<times> event list" where
  "make_request_with_retry env req_url ps max_retries tr =
     request_attempts env req_url ps max_retries [0 ..< max_retries] tr"

text \<open>The number of requests sent in a trace.\<close>

fun is_request :: "event \<Rightarrow> bool" where
  "is_request (SessionGet u ps) = True"
| "is_request _ = False"

definition requests :: "event list \<Rightarrow> nat" where
  "requests tr = length (filter is_request tr)"

section \<open>The keyed source\<close>

definition gnews_base_url :: string where
  "gnews_base_url = ''https://gnews.io/api/v4/search''"

text \<open>\<^verbatim>\<open>d.get(k, default)\<close>.\<close>

definition dict_get :: "(string \<times> pyval) list \<Rightarrow> string \<Rightarrow> pyval \<Rightarrow> pyval" where
  "dict_get kvs k d = (case map_of kvs k of None \<Rightarrow> d | Some v \<Rightarrow> v)"

text \<open>
  \<^verbatim>\<open>article_data.get('source', {}).get('name', 'Unknown')\<close>: \<open>None\<close> when the value
  under \<^verbatim>\<open>source\<close> is not a dictionary and the second \<^verbatim>\<open>get\<close> raises.
\<close>

definition source_name :: "(string \<times> pyval) list \<Rightarrow> pyval option" where
  "source_name kvs =
     (case map_of kvs ''source'' of
        None \<Rightarrow> Some (PStr ''Unknown'')
      | Some (PDict s) \<Rightarrow> Some (dict_get s ''name'' (PStr ''Unknown''))
      | Some _ \<Rightarrow> None)"

text \<open>
  The constructor call inside the \<^verbatim>\<open>try\<close> of \<^verbatim>\<open>fetch_gnews\<close>: \<open>None\<close> when it
  raises (the element is not a dictionary, or its source is not one).
\<close>

definition gnews_article :: "string \<Rightarrow> pyval \<Rightarrow> NewsArticle option" where
  "gnews_article query article_data =
     (case article_data of
        PDict kvs \<Rightarrow>
          (case source_name kvs of
             None \<Rightarrow> None
           | Some name \<Rightarrow>
               Some \<lparr> title = dict_get kvs ''title'' (PStr []),
                      summary = dict_get kvs ''description'' (PStr []),
                      url = dict_get kvs ''url'' (PStr []),
                      published_date = dict_get kvs ''publishedAt'' (PStr []),
                      source = name,
                      category = PStr query,
                      content = dict_get kvs ''content'' PNone,
                      author = dict_get kvs ''author'' PNone,
                      image_url = dict_get kvs ''image'' PNone,
                      sentiment_score = PNone \<rparr>)
      | _ \<Rightarrow> None)"

text \<open>The loop over the elements: an element that raises is skipped, and an article is
  appended only when its title and its summary are both true.\<close>

fun gnews_entries :: "string \<Rightarrow> pyval list \<Rightarrow> NewsArticle list" where
  "gnews_entries query [] = []"
| "gnews_entries query (article_data # rest) =
     (case gnews_article query article_data of
        None \<Rightarrow> gnews_entries query rest
      | Some article \<Rightarrow>
          if truthy (title article) \<and> truthy (summary article)
          then article # gnews_entries query rest
          else gnews_entries query rest)"

text \<open>\<^verbatim>\<open>p in s\<close> on strings.\<close>

fun is_substring :: "string \<Rightarrow> string \<Rightarrow> bool" where
  "is_substring p [] = (p = [])"
| "is_substring p (c # cs) = (take (length p) (c # cs) = p \<or> is_substring p cs)"

text \<open>
  What \<^verbatim>\<open>fetch_gnews\<close> does with the decoded body. The test
  \<^verbatim>\<open>not data or 'articles' not in data\<close> is a key test on a dictionary, a membership
  test on a list, a substring test on a string, and raises TypeError on a number;
  \<^verbatim>\<open>data['articles']\<close> raises TypeError on a list or a string. The slice of a string
  yields one-character strings, each skipped; the slice of anything but a list or a
  string raises (TypeError; on a dictionary KeyError from Python 3.12 on, which is
  TypeError here). None of these is caught by \<^verbatim>\<open>fetch_gnews\<close>.
\<close>

definition gnews_parse :: "string \<Rightarrow> int \<Rightarrow> pyval \<Rightarrow> error + NewsArticle list" where
  "gnews_parse query max_results data =
     (if \<not> truthy data then Inr []
      else case data of
        PDict kvs \<Rightarrow>
          (case map_of kvs ''articles'' of
             None \<Rightarrow> Inr []
           | Some (PList items) \<Rightarrow> Inr (gnews_entries query (py_slice_to items max_results))
           | Some (PStr s) \<Rightarrow> Inr []
           | Some _ \<Rightarrow> Inl TypeError)
      | PList xs \<Rightarrow> if PStr ''articles'' \<in> set xs then Inl TypeError else Inr []
      | PStr s \<Rightarrow> if is_substring ''articles'' s then Inl TypeError else Inr []
      | _ \<Rightarrow> Inl TypeError)"

text \<open>The query parameters of \<^verbatim>\<open>fetch_gnews\<close>.\<close>

definition gnews_params :: "string \<Rightarrow> int \<Rightarrow> string \<Rightarrow> params" where
  "gnews_params query max_results key =
     \<lparr> p_q = query, p_lang = ''en'', p_country = ''us'',
       p_max = min max_results 10, p_apikey = key \<rparr>"

definition fetch_gnews ::
  "env \<Rightarrow> NoobieConfig \<Rightarrow> string \<Rightarrow> int \<Rightarrow> event list
     \<Rightarrow> (error + NewsArticle list) \<times> event list" where
  "fetch_gnews env config query max_results tr =
     (case news_api_key config of
        None \<Rightarrow> (Inr [], tr)
      | Some key \<Rightarrow>
          if key = [] then (Inr [], tr)
          else
            (case make_request_with_retry env gnews_base_url
                    (gnews_params query max_results key) 3 tr of
               (Inl e, tr') \<Rightarrow> (Inl e, tr')
             | (Inr data, tr') \<Rightarrow> (gnews_parse query max_results data, tr')))"

section \<open>The feed source\<close>

definition text_or :: "string option \<Rightarrow> string \<Rightarrow> string" where
  "text_or v d = (case v of None \<Rightarrow> d | Some s \<Rightarrow> s)"

text \<open>
  The body of the inner \<^verbatim>\<open>try\<close> of \<^verbatim>\<open>fetch_rss_feed\<close>: \<open>None\<close> when building the
  date raises.
\<close>

definition rss_article :: "feed \<Rightarrow> string \<Rightarrow> feed_entry \<Rightarrow> NewsArticle option" where
  "rss_article f cat entry =
     (case (case e_published_parsed entry of
              None \<Rightarrow> Some (text_or (e_published entry) [])
            | Some (Iso s) \<Rightarrow> Some s
            | Some DatetimeRaises \<Rightarrow> None) of
        None \<Rightarrow> None
      | Some pub_date \<Rightarrow>
          Some \<lparr> title = PStr (text_or (e_title entry) []),
                 summary = PStr (text_or (e_summary entry) (text_or (e_description entry) [])),
                 url = PStr (text_or (e_link entry) []),
                 published_date = PStr pub_date,
                 source = PStr (text_or (feed_title f) ''RSS Feed''),
                 category = PStr cat,
                 content = PNone,
                 author = (case e_author entry of None \<Rightarrow> PNone | Some a \<Rightarrow> PStr a),
                 image_url = PNone,
                 sentiment_score = PNone \<rparr>)"

fun rss_entries :: "feed \<Rightarrow> string \<Rightarrow> feed_entry list \<Rightarrow> NewsArticle list" where
  "rss_entries f cat [] = []"
| "rss_entries f cat (entry # rest) =
     (case rss_article f cat entry of
        None \<Rightarrow> rss_entries f cat rest
      | Some article \<Rightarrow>
          if truthy (title article) \<and> truthy (summary article)
          then article # rss_entries f cat rest
          else rss_entries f cat rest)"

text \<open>\<^verbatim>\<open>fetch_rss_feed\<close>: every exception ends in the empty list.\<close>

definition fetch_rss_feed ::
  "env \<Rightarrow> string \<Rightarrow> string \<Rightarrow> int \<Rightarrow> event list \<Rightarrow> NewsArticle list \<times> event list" where
  "fetch_rss_feed env feed_url cat max_results tr =
     (let tr1 = tr @ [RateLimit, FeedparserParse feed_url] in
      case feedparser_parse env tr feed_url of
        ParseRaises \<Rightarrow> ([], tr1)
      | Parsed f \<Rightarrow> (rss_entries f cat (py_slice_to (entries f) max_results), tr1))"

text \<open>
  \<^verbatim>\<open>urlencode({'q': query})\<close>: \<^verbatim>\<open>quote_plus\<close> of the value. ASCII letters, digits
  and the four marks are kept, a space becomes a plus sign, and every other code point
  is written as the percent-escaped bytes of its UTF-8 encoding, which has one byte
  below 128 and two bytes from 128 to 255.
\<close>

definition unreserved :: "char \<Rightarrow> bool" where
  "unreserved c =
     (let n = of_char c :: nat
      in (65 \<le> n \<and> n \<le> 90) \<or> (97 \<le> n \<and> n \<le> 122) \<or> (48 \<le> n \<and> n \<le> 57)
         \<or> c \<in> set ''_.-~'')"

definition hex_digit :: "nat \<Rightarrow> char" where
  "hex_digit n = ''0123456789ABCDEF'' ! n"

definition percent :: "nat \<Rightarrow> string" where
  "percent byte = [CHR ''%'', hex_digit (byte div 16), hex_digit (byte mod 16)]"

definition quote_plus_char :: "char \<Rightarrow> string" where
  "quote_plus_char c =
     (let n = of_char c :: nat
      in if unreserved c then [c]
         else if c = CHR '' '' then ''+''
         else if n < 128 then percent n
         else percent (192 + n div 64) @ percent (128 + n mod 64))"

definition urlencode_q :: "string \<Rightarrow> string" where
  "urlencode_q query = ''q='' @ concat (map quote_plus_char query)"

definition rss_url :: "string \<Rightarrow> string" where
  "rss_url query =
     ''https://news.google.com/rss/search?'' @ urlencode_q query @ ''&hl=en-US&gl=US&ceid=US:en''"

definition fetch_google_news_rss ::
  "env \<Rightarrow> string \<Rightarrow> int \<Rightarrow> event list \<Rightarrow> NewsArticle list \<times> event list" where
  "fetch_google_news_rss env query max_results tr =
     fetch_rss_feed env (rss_url query) query max_results tr"

section \<open>Mock articles\<close>

text \<open>
  \<^verbatim>\<open>str.title()\<close>: a character that follows a cased character is lower-cased, any
  other character is title-cased. Below 256 the cased characters are the upper-case
  letters, the lower-case letters with an upper-case partner (a to z, and 224 to 254
  without the division sign 247), and the five characters 170, 181, 186, 223, 255.
  The title case of a lower-case letter with a partner is that partner, the title case
  of the sharp s (223) is the two letters \<open>Ss\<close>, and every other character is its own
  title case, with two exceptions: the title cases of the micro sign (181) and of the
  y with diaeresis (255) are the code points 924 and 376, which no \<open>char\<close> holds.
  \<open>title_char\<close> leaves these two as they are, so \<open>py_title\<close> is \<^verbatim>\<open>str.title()\<close> on
  every text in which neither of them starts a word.
\<close>

definition has_upper :: "char \<Rightarrow> bool" where
  "has_upper c =
     (let n = of_char c :: nat
      in (97 \<le> n \<and> n \<le> 122) \<or> (224 \<le> n \<and> n \<le> 246) \<or> (248 \<le> n \<and> n \<le> 254))"

definition iscased :: "char \<Rightarrow> bool" where
  "iscased c = (isupper c \<or> has_upper c \<or> of_char c \<in> {170, 181, 186, 223, 255 :: nat})"

definition title_char :: "char \<Rightarrow> string" where
  "title_char c =
     (if has_upper c then [char_of ((of_char c :: nat) - 32)]
      else if (of_char c :: nat) = 223 then ''Ss''
      else [c])"

fun title_from :: "bool \<Rightarrow> string \<Rightarrow> string" where
  "title_from previous_is_cased [] = []"
| "title_from previous_is_cased (c # cs) =
     (if previous_is_cased then [lower_char c] else title_char c) @ title_from (iscased c) cs"

definition py_title :: "string \<Rightarrow> string" where
  "py_title s = title_from False s"

text \<open>The three templates, as (title, summary, source).\<close>

definition mock_templates :: "string \<Rightarrow> (string \<times> string \<times> string) list" where
  "mock_templates cat =
     [(''Breaking: Major Development in '' @ py_title cat,
       ''Recent developments in '' @ cat
         @ '' show significant changes that could impact global markets and policy decisions.'',
       ''Mock News Network''),
      (py_title cat @ '' Trends Show Positive Growth'',
       ''Analysis of current '' @ cat
         @ '' trends indicates sustained growth and positive outlook for the coming months.'',
       ''Global Analysis Today''),
      (''Expert Commentary on '' @ py_title cat @ '' Developments'',
       ''Leading experts weigh in on recent '' @ cat
         @ '' developments and their potential implications.'',
       ''Expert Insights'')]"

text \<open>\<^verbatim>\<open>str(n)\<close> for a natural number.\<close>

fun str_nat :: "nat \<Rightarrow> string" where
  "str_nat n =
     (if n < 10 then [''0123456789'' ! n]
      else str_nat (n div 10) @ [''0123456789'' ! (n mod 10)])"

fun mock_loop :: "env \<Rightarrow> string \<Rightarrow> nat list \<Rightarrow> event list \<Rightarrow> NewsArticle list \<times> event list" where
  "mock_loop env cat [] tr = ([], tr)"
| "mock_loop env cat (i # rest) tr =
     (case mock_templates cat ! i of
        (template_title, template_summary, template_source) \<Rightarrow>
          (let article =
                 \<lparr> title = PStr template_title,
                   summary = PStr template_summary,
                   url = PStr (''https://mock-news.com/article-'' @ str_nat (i + 1)),
                   published_date = PStr (datetime_now env tr),
                   source = PStr template_source,
                   category = PStr cat,
                   content = PStr (''Full content for '' @ template_title @ ''...''),
                   author = PNone,
                   image_url = PNone,
                   sentiment_score = PNone \<rparr>;
               (articles, tr') = mock_loop env cat rest (tr @ [DatetimeNow])
           in (article # articles, tr')))"

text \<open>
  \<^verbatim>\<open>generate_mock_articles\<close>: the loop runs over \<^verbatim>\<open>range(min(count, 3))\<close>, so every
  index is below the number of templates.
\<close>

definition generate_mock_articles ::
  "env \<Rightarrow> NoobieConfig \<Rightarrow> string \<Rightarrow> int \<Rightarrow> event list \<Rightarrow> NewsArticle list \<times> event list" where
  "generate_mock_articles env config cat count tr =
     (if \<not> mock_mode config then ([], tr)
      else mock_loop env cat [0 ..< nat (min count (int (length (mock_templates cat))))] tr)"

section \<open>The pipeline\<close>

text \<open>The first stage of the loop body of \<^verbatim>\<open>fetch_trending_news\<close>: the keyed source,
  asked only when an API key is configured.\<close>

definition keyed_stage ::
  "env \<Rightarrow> NoobieConfig \<Rightarrow> string \<Rightarrow> event list \<Rightarrow> (error + NewsArticle list) \<times> event list" where
  "keyed_stage env config cat tr =
     (if news_api_key config \<noteq> None \<and> news_api_key config \<noteq> Some []
      then fetch_gnews env config cat 3 tr
      else (Inr [], tr))"

text \<open>The loop body: \<^verbatim>\<open>category_articles\<close> for one category.\<close>

definition fetch_category ::
  "env \<Rightarrow> NoobieConfig \<Rightarrow> string \<Rightarrow> event list \<Rightarrow> (error + NewsArticle list) \<times> event list" where
  "fetch_category env config cat tr =
     (case keyed_stage env config cat tr of
        (Inl e, tr1) \<Rightarrow> (Inl e, tr1)
      | (Inr gnews_articles, tr1) \<Rightarrow>
          (let (rss_articles, tr2) =
                 (if length gnews_articles < 2 then fetch_google_news_rss env cat 3 tr1
                  else ([], tr1));
               category_articles = gnews_articles @ rss_articles;
               (mock_articles, tr3) =
                 (if length category_articles < 1 \<and> mock_mode config
                  then generate_mock_articles env config cat 2 tr2
                  else ([], tr2))
           in (Inr (category_articles @ mock_articles), tr3)))"

text \<open>The loop over \<^verbatim>\<open>config.news_categories\<close>, with the accumulator
  \<^verbatim>\<open>all_articles\<close>.\<close>

fun fetch_categories ::
  "env \<Rightarrow> NoobieConfig \<Rightarrow> string list \<Rightarrow> NewsArticle list \<Rightarrow> event list
     \<Rightarrow> (error + NewsArticle list) \<times> event list" where
  "fetch_categories env config [] all_articles tr = (Inr all_articles, tr)"
| "fetch_categories env config (cat # rest) all_articles tr =
     (case fetch_category env config cat tr of
        (Inl e, tr') \<Rightarrow> (Inl e, tr')
      | (Inr category_articles, tr') \<Rightarrow>
          fetch_categories env config rest (all_articles @ category_articles) tr')"

definition fetch_trending_news ::
  "env \<Rightarrow> NoobieConfig \<Rightarrow> event list \<Rightarrow> (error + NewsArticle list) \<times> event list" where
  "fetch_trending_news env config tr =
     (case fetch_categories env config (news_categories config) [] tr of
        (Inl e, tr') \<Rightarrow> (Inl e, tr')
      | (Inr all_articles, tr') \<Rightarrow>
          (case deduplicate_articles all_articles of
             Inl e \<Rightarrow> (Inl e, tr')
           | Inr unique_articles \<Rightarrow>
               (Inr (py_slice_to unique_articles (max_articles config)), tr')))"

section \<open>The cache file\<close>

text \<open>\<^verbatim>\<open>NewsArticle.to_dict\<close>.\<close>

definition to_dict :: "NewsArticle \<Rightarrow> pyval" where
  "to_dict a =
     PDict [(''title'', title a), (''summary'', summary a), (''url'', url a),
            (''published_date'', published_date a), (''source'', source a),
            (''category'', category a), (''content'', content a), (''author'', author a),
            (''image_url'', image_url a), (''sentiment_score'', sentiment_score a)]"

definition required_fields :: "string list" where
  "required_fields =
     [''title'', ''summary'', ''url'', ''published_date'', ''source'', ''category'']"

definition optional_fields :: "string list" where
  "optional_fields = [''content'', ''author'', ''image_url'', ''sentiment_score'']"

text \<open>
  \<^verbatim>\<open>NewsArticle(**article_data)\<close>: \<open>None\<close> when the call raises TypeError, which it
  does when the argument is not a dictionary, has a key that is no field, or lacks a
  field without default. The values are stored as they are.
\<close>

definition from_kwargs :: "pyval \<Rightarrow> NewsArticle option" where
  "from_kwargs article_data =
     (case article_data of
        PDict kvs \<Rightarrow>
          if list_all (\<lambda>k. k \<in> set (required_fields @ optional_fields)) (map fst kvs)
             \<and> list_all (\<lambda>k. map_of kvs k \<noteq> None) required_fields
          then Some \<lparr> title = dict_get kvs ''title'' PNone,
                      summary = dict_get kvs ''summary'' PNone,
                      url = dict_get kvs ''url'' PNone,
                      published_date = dict_get kvs ''published_date'' PNone,
                      source = dict_get kvs ''source'' PNone,
                      category = dict_get kvs ''category'' PNone,
                      content = dict_get kvs ''content'' PNone,
                      author = dict_get kvs ''author'' PNone,
                      image_url = dict_get kvs ''image_url'' PNone,
                      sentiment_score = dict_get kvs ''sentiment_score'' PNone \<rparr>
          else None
      | _ \<Rightarrow> None)"

text \<open>
  A file holds a JSON document, the value that \<^verbatim>\<open>json.dump\<close> wrote and that
  \<^verbatim>\<open>json.load\<close> reads back: the library's encoder and decoder are taken to be
  inverse to each other on the values of \<open>pyval\<close>. A name without document stands
  for a file that is missing, unreadable or not JSON.
\<close>

type_synonym files = "string \<Rightarrow> pyval option"

text \<open>\<^verbatim>\<open>save_articles_cache\<close>; opening the file may raise.\<close>

definition save_articles_cache ::
  "env \<Rightarrow> NewsArticle list \<Rightarrow> string option \<Rightarrow> files \<Rightarrow> event list
     \<Rightarrow> (error + string) \<times> files \<times> event list" where
  "save_articles_cache env articles cache_file fs tr =
     (let (name, tr1) =
            (if cache_file = None \<or> cache_file = Some []
             then (''news_cache_'' @ datetime_today env tr @ ''.json'', tr @ [DatetimeNow])
             else (the cache_file, tr));
          cache_data =
            PDict [(''timestamp'', PStr (datetime_now env tr1)),
                   (''count'', PInt (int (length articles))),
                   (''articles'', PList (map to_dict articles))];
          tr2 = tr1 @ [DatetimeNow]
      in if open_for_writing env name then (Inr name, fs(name \<mapsto> cache_data), tr2)
         else (Inl OSError, fs, tr2))"

text \<open>The loop of \<^verbatim>\<open>load_articles_cache\<close>: one element that raises discards the whole
  list, since the handler encloses the loop.\<close>

fun load_loop :: "pyval list \<Rightarrow> NewsArticle list \<Rightarrow> NewsArticle list option" where
  "load_loop [] articles = Some articles"
| "load_loop (article_data # rest) articles =
     (case from_kwargs article_data of
        None \<Rightarrow> None
      | Some article \<Rightarrow> load_loop rest (articles @ [article]))"

text \<open>
  \<^verbatim>\<open>load_articles_cache\<close>: every exception ends in the empty list. Iterating over
  a string or over the keys of a dictionary yields strings, which are no keyword
  arguments; a number, a truth value or \<^verbatim>\<open>None\<close> is not iterable.
\<close>

definition load_articles_cache :: "files \<Rightarrow> string \<Rightarrow> NewsArticle list" where
  "load_articles_cache fs cache_file =
     (case fs cache_file of
        None \<Rightarrow> []
      | Some (PDict kvs) \<Rightarrow>
          (case dict_get kvs ''articles'' (PList []) of
             PList items \<Rightarrow> (case load_loop items [] of None \<Rightarrow> [] | Some articles \<Rightarrow> articles)
           | _ \<Rightarrow> [])
      | Some _ \<Rightarrow> [])"

section \<open>A sample world\<close>

text \<open>
  A world for the examples: the keyed source answers the query \<open>markets\<close> with three
  articles and fails on every other query; the feed for \<open>markets\<close> and the feed for
  \<open>science\<close> hold four entries each, every other feed is empty.
\<close>

definition sample_item :: "string \<Rightarrow> pyval" where
  "sample_item t =
     PDict [(''title'', PStr t), (''description'', PStr ''A keyed summary''),
            (''url'', PStr ''https://example.org/k''),
            (''publishedAt'', PStr ''2024-05-01T08:00:00Z''),
            (''source'', PDict [(''name'', PStr ''Wire'')])]"

definition sample_entry :: "string \<Rightarrow> feed_entry" where
  "sample_entry t =
     \<lparr> e_title = Some t, e_summary = Some ''A feed summary'', e_description = None,
       e_link = Some ''https://example.org/f'', e_published = Some ''Wed, 01 May 2024'',
       e_published_parsed = None, e_author = None \<rparr>"

definition sample_feed :: "string list \<Rightarrow> feed" where
  "sample_feed ts = \<lparr> bozo = False, entries = map sample_entry ts, feed_title = Some ''Feed'' \<rparr>"

definition sample_env :: env where
  "sample_env =
     \<lparr> session_get = (\<lambda>tr u ps.
         if p_q ps = ''markets''
         then Json (PDict [(''articles'',
                PList [sample_item ''Stocks climb on earnings'',
                       sample_item ''Oil prices slip'',
                       sample_item ''Bond yields hold steady''])])
         else RequestException),
       random_uniform = (\<lambda>tr. 1 / 4),
       feedparser_parse = (\<lambda>tr u.
         if u = rss_url ''markets''
         then Parsed (sample_feed [''Copper demand rises'', ''Banks report profits'',
                                   ''Retail sales dip'', ''Housing starts jump''])
         else if u = rss_url ''science''
         then Parsed (sample_feed [''New comet spotted'', ''Fusion record broken'',
                                   ''Ocean probe launched'', ''Ancient fossil found''])
         else Parsed (sample_feed [])),
       datetime_now = (\<lambda>tr. ''2024-05-01T09:00:00''),
       datetime_today = (\<lambda>tr. ''2024-05-01''),
       open_for_writing = (\<lambda>name. True) \<rparr>"

definition sample_config :: NoobieConfig where
  "sample_config =
     \<lparr> news_api_key = None, mock_mode = False, max_articles = 4,
       news_categories = [''markets'', ''science''] \<rparr>"

definition keyed_article :: "string \<Rightarrow> string \<Rightarrow> NewsArticle" where
  "keyed_article cat t =
     \<lparr> title = PStr t, summary = PStr ''A keyed summary'', url = PStr ''https://example.org/k'',
       published_date = PStr ''2024-05-01T08:00:00Z'', source = PStr ''Wire'',
       category = PStr cat, content = PNone, author = PNone, image_url = PNone,
       sentiment_score = PNone \<rparr>"

definition feed_article :: "string \<Rightarrow> string \<Rightarrow> NewsArticle" where
  "feed_article cat t =
     \<lparr> title = PStr t, summary = PStr ''A feed summary'', url = PStr ''https://example.org/f'',
       published_date = PStr ''Wed, 01 May 2024'', source = PStr ''Feed'',
       category = PStr cat, content = PNone, author = PNone, image_url = PNone,
       sentiment_score = PNone \<rparr>"

text \<open>
  A world in which the keyed source answers every query with one item whose
  description is the number 5, and every feed is empty.
\<close>

definition untyped_env :: env where
  "untyped_env =
     sample_env \<lparr> session_get := (\<lambda>tr u ps.
         Json (PDict [(''articles'',
                PList [PDict [(''title'', PStr ''Rates rise''), (''description'', PInt 5)]])])),
       feedparser_parse := (\<lambda>tr u. Parsed (sample_feed [])) \<rparr>"

definition untyped_config :: NoobieConfig where
  "untyped_config =
     \<lparr> news_api_key = Some ''k'', mock_mode = False, max_articles = 4,
       news_categories = [''rates''] \<rparr>"

definition untyped_article :: NewsArticle where
  "untyped_article =
     \<lparr> title = PStr ''Rates rise'', summary = PInt 5, url = PStr [],
       published_date = PStr [], source = PStr ''Unknown'', category = PStr ''rates'',
       content = PNone, author = PNone, image_url = PNone, sentiment_score = PNone \<rparr>"

section \<open>Notions used to state the properties\<close>

text \<open>The number of calls of the feed parser in a trace.\<close>

fun is_feed_call :: "event \<Rightarrow> bool" where
  "is_feed_call (FeedparserParse u) = True"
| "is_feed_call _ = False"

definition feed_calls :: "event list \<Rightarrow> nat" where
  "feed_calls tr = length (filter is_feed_call tr)"

text \<open>
  The pipeline as the specification words it: every topic in order yields its own list
  of articles, each topic starting in the world the previous one left. It is compared
  below with the accumulating loop \<open>fetch_categories\<close>.
\<close>

fun per_topic ::
  "env \<Rightarrow> NoobieConfig \<Rightarrow> string list \<Rightarrow> event list
     \<Rightarrow> (error + NewsArticle list list) \<times> event list" where
  "per_topic env config [] tr = (Inr [], tr)"
| "per_topic env config (topic # rest) tr =
     (case fetch_category env config topic tr of
        (Inl e, tr') \<Rightarrow> (Inl e, tr')
      | (Inr articles, tr') \<Rightarrow>
          (case per_topic env config rest tr' of
             (Inl e, tr'') \<Rightarrow> (Inl e, tr'')
           | (Inr parts, tr'') \<Rightarrow> (Inr (articles # parts), tr'')))"

text \<open>The test \<^verbatim>\<open>if article.title and article.summary\<close> of both fetchers.\<close>

definition kept :: "NewsArticle \<Rightarrow> bool" where
  "kept a = (truthy (title a) \<and> truthy (summary a))"

text \<open>A value that is a string with at least one character.\<close>

definition nonempty_text :: "pyval \<Rightarrow> bool" where
  "nonempty_text v = (case v of PStr s \<Rightarrow> s \<noteq> [] | _ \<Rightarrow> False)"

text \<open>Two articles whose titles are strings with a Jaccard similarity above 0.7.\<close>

definition near :: "NewsArticle \<Rightarrow> NewsArticle \<Rightarrow> bool" where
  "near a b =
     (case (title a, title b) of
        (PStr s, PStr t) \<Rightarrow> jaccard s t > 7 / 10
      | _ \<Rightarrow> False)"

text \<open>The titles that \<^verbatim>\<open>seen_titles\<close> holds once the articles of a list are accepted.\<close>

definition seen_of :: "NewsArticle list \<Rightarrow> string list" where
  "seen_of accepted = map (\<lambda>a. case title a of PStr s \<Rightarrow> lower s | _ \<Rightarrow> []) accepted"

section \<open>Properties of deduplication\<close>

lemma finite_title_words [simp]: "finite (title_words t)"
  by (simp add: title_words_def)

lemma similar_defined:
  assumes "finite A" "finite B" "A \<union> B \<noteq> {}"
  shows "similar A B = Inr (real (card (A \<inter> B)) / real (card (A \<union> B)) > 7 / 10)"
  using assms by (simp add: similar_def)

lemma similar_empty_empty: "similar {} {} = Inl ZeroDivisionError"
  by (simp add: similar_def)

lemma similar_empty_left:
  assumes "finite B" "B \<noteq> {}"
  shows "similar {} B = Inr False"
  using assms by (simp add: similar_def)

lemma is_duplicate_nonempty_total:
  assumes "finite A" "A \<noteq> {}"
  shows "\<exists>b. is_duplicate A seen = Inr b"
proof (induction seen)
  case Nil
  show ?case by (rule exI [of _ False]) simp
next
  case (Cons s seen)
  have "similar A (set (split s)) = Inr (real (card (A \<inter> set (split s))) / real (card (A \<union> set (split s))) > 7 / 10)"
    using assms by (intro similar_defined) auto
  with Cons show ?case by (auto split: bool.splits)
qed

lemma is_duplicate_set:
  assumes "finite A"
  shows "is_duplicate A seen =
     (if A = {} \<and> (\<exists>s \<in> set seen. set (split s) = {}) then Inl ZeroDivisionError
      else Inr (\<exists>s \<in> set seen. similar A (set (split s)) = Inr True))"
proof (induction seen)
  case Nil
  show ?case by simp
next
  case (Cons s seen)
  show ?case
  proof (cases "A = {} \<and> set (split s) = {}")
    case True
    then show ?thesis by (simp add: similar_empty_empty)
  next
    case False
    then have ne: "A \<union> set (split s) \<noteq> {}" by auto
    define b where "b = (real (card (A \<inter> set (split s))) / real (card (A \<union> set (split s))) > 7 / 10)"
    have sim: "similar A (set (split s)) = Inr b"
      unfolding b_def using assms ne by (intro similar_defined) auto
    show ?thesis
    proof (cases b)
      case True
      have "A \<noteq> {}"
      proof
        assume "A = {}"
        with True show False by (simp add: b_def)
      qed
      with True sim show ?thesis by auto
    next
      case False
      with sim Cons \<open>\<not> (A = {} \<and> set (split s) = {})\<close> show ?thesis by auto
    qed
  qed
qed

lemma is_duplicate_order:
  assumes "finite A" "set seen = set seen'"
  shows "is_duplicate A seen = is_duplicate A seen'"
  using assms by (simp add: is_duplicate_set)

lemma dedup_loop_fixed:
  "dedup_loop xs u s = Inr r \<Longrightarrow> \<exists>r'. r = u @ r' \<and> dedup_loop r' u s = Inr r"
proof (induction xs arbitrary: u s)
  case Nil
  then show ?case by simp
next
  case (Cons a xs)
  from Cons.prems obtain t where t: "title a = PStr t"
    by (auto split: pyval.splits)
  from Cons.prems t obtain b where b: "is_duplicate (set (split (lower t))) s = Inr b"
    by (auto split: sum.splits)
  show ?case
  proof (cases b)
    case True
    with Cons.prems t b have "dedup_loop xs u s = Inr r" by simp
    then show ?thesis by (rule Cons.IH)
  next
    case False
    with Cons.prems t b have "dedup_loop xs (u @ [a]) (List.insert (lower t) s) = Inr r" by simp
    from Cons.IH [OF this] obtain r' where r': "r = (u @ [a]) @ r'"
      "dedup_loop r' (u @ [a]) (List.insert (lower t) s) = Inr r" by blast
    have "dedup_loop (a # r') u s = Inr r" using t b False r'(2) by simp
    with r'(1) show ?thesis by (intro exI [of _ "a # r'"]) simp
  qed
qed

text \<open>
  Claim C4. Deduplication is idempotent: whenever \<^verbatim>\<open>_deduplicate_articles\<close> returns a
  list, applying it to that list returns the same list.
\<close>

theorem deduplicate_idempotent:
  "deduplicate_articles articles = Inr unique \<Longrightarrow> deduplicate_articles unique = Inr unique"
  unfolding deduplicate_articles_def
  by (drule dedup_loop_fixed) auto

theorem deduplicate_idempotent_witness:
  "deduplicate_articles [titled ''Fed Raises Interest Rates Again'',
       titled ''Fed Raises Interest Rates'', titled ''Markets Rally'']
     = Inr [titled ''Fed Raises Interest Rates Again'', titled ''Markets Rally'']
   \<and> deduplicate_articles [titled ''Fed Raises Interest Rates Again'', titled ''Markets Rally'']
     = Inr [titled ''Fed Raises Interest Rates Again'', titled ''Markets Rally'']"
proof -
  have run: "deduplicate_articles [titled ''Fed Raises Interest Rates Again'',
       titled ''Fed Raises Interest Rates'', titled ''Markets Rally'']
     = Inr [titled ''Fed Raises Interest Rates Again'', titled ''Markets Rally'']"
    by code_simp
  from run deduplicate_idempotent [OF run] show ?thesis by simp
qed

lemma jaccard_sym: "jaccard s t = jaccard t s"
  by (simp add: jaccard_def similarity_def Int_commute Un_commute)

lemma dedup_pair:
  assumes a: "title a = PStr s" and b: "title b = PStr t"
    and ne: "title_words s \<union> title_words t \<noteq> {}"
  shows "deduplicate_articles [a, b] = Inr (if jaccard s t > 7 / 10 then [a] else [a, b])"
proof -
  have "similar (title_words t) (title_words s) = Inr (jaccard t s > 7 / 10)"
    using ne unfolding jaccard_def similarity_def by (intro similar_defined) auto
  then have "similar (set (split (lower t))) (set (split (lower s))) = Inr (jaccard s t > 7 / 10)"
    by (simp add: title_words_def jaccard_sym)
  then show ?thesis
    by (simp add: deduplicate_articles_def a b)
qed

lemma jaccard_empty: "title_words t = {} \<Longrightarrow> jaccard s t = 0"
  by (simp add: jaccard_def similarity_def)

lemma similar_jaccard:
  assumes "title_words t \<noteq> {}"
  shows "similar (title_words t) (set (split (lower s))) = Inr (jaccard s t > 7 / 10)"
proof -
  have "similar (title_words t) (title_words s) = Inr (jaccard t s > 7 / 10)"
    using assms unfolding jaccard_def similarity_def by (intro similar_defined) auto
  then show ?thesis by (simp add: title_words_def jaccard_sym)
qed

lemma is_duplicate_near:
  assumes strs: "\<forall>a \<in> set u. \<exists>s. title a = PStr s"
    and seen: "set seen = set (seen_of u)"
    and b: "title b = PStr t" and ne: "title_words t \<noteq> {}"
  shows "is_duplicate (title_words t) seen = Inr (\<exists>a \<in> set u. near a b)"
proof -
  have "(\<exists>s \<in> set seen. similar (title_words t) (set (split s)) = Inr True)
      = (\<exists>a \<in> set u. near a b)"
  proof
    assume "\<exists>s \<in> set seen. similar (title_words t) (set (split s)) = Inr True"
    then obtain s where s: "s \<in> set (seen_of u)"
      and sim: "similar (title_words t) (set (split s)) = Inr True"
      using seen by auto
    from s obtain a where a: "a \<in> set u"
      and sa: "s = (case title a of PStr s \<Rightarrow> lower s | _ \<Rightarrow> [])"
      by (auto simp: seen_of_def)
    from strs a obtain s0 where s0: "title a = PStr s0" by auto
    with sa sim similar_jaccard [OF ne, of s0] have "jaccard s0 t > 7 / 10" by simp
    with s0 b have "near a b" by (simp add: near_def)
    with a show "\<exists>a \<in> set u. near a b" ..
  next
    assume "\<exists>a \<in> set u. near a b"
    then obtain a where a: "a \<in> set u" and n: "near a b" ..
    from strs a obtain s0 where s0: "title a = PStr s0" by auto
    with n b have j: "jaccard s0 t > 7 / 10" by (simp add: near_def)
    from a s0 have "lower s0 \<in> set (seen_of u)"
      by (force simp: seen_of_def)
    with seen have "lower s0 \<in> set seen" by simp
    moreover from j similar_jaccard [OF ne, of s0]
    have "similar (title_words t) (set (split (lower s0))) = Inr True" by simp
    ultimately show "\<exists>s \<in> set seen. similar (title_words t) (set (split s)) = Inr True" ..
  qed
  with ne show ?thesis by (simp add: is_duplicate_set)
qed

lemma not_near_empty:
  assumes "title b = PStr t" "title_words t = {}"
  shows "\<not> near a b"
  using assms jaccard_empty [of t] by (auto simp: near_def split: pyval.splits)

lemma accepted_not_near:
  assumes strs: "\<forall>a \<in> set u. \<exists>s. title a = PStr s"
    and seen: "set seen = set (seen_of u)"
    and b: "title b = PStr t"
    and acc: "is_duplicate (title_words t) seen = Inr False"
  shows "\<forall>a \<in> set u. \<not> near a b"
proof (cases "title_words t = {}")
  case True
  with b show ?thesis by (simp add: not_near_empty)
next
  case False
  from is_duplicate_near [OF strs seen b False] acc show ?thesis by simp
qed

lemma seen_of_snoc:
  "title a = PStr t \<Longrightarrow> set (List.insert (lower t) seen) = set (seen_of (u @ [a]))
     \<longleftrightarrow> insert (lower t) (set seen) = insert (lower t) (set (seen_of u))"
  by (auto simp: seen_of_def)

lemma inv_step:
  assumes "\<forall>a \<in> set u. \<exists>s. title a = PStr s" "set seen = set (seen_of u)" "title a = PStr t"
  shows "\<forall>x \<in> set (u @ [a]). \<exists>s. title x = PStr s"
    and "set (List.insert (lower t) seen) = set (seen_of (u @ [a]))"
  using assms by (auto simp: seen_of_def)

lemma dedup_loop_separated:
  assumes "\<forall>a \<in> set u. \<exists>s. title a = PStr s" "set seen = set (seen_of u)"
    and "sorted_wrt (\<lambda>a b. \<not> near a b) u"
    and "dedup_loop xs u seen = Inr r"
  shows "sorted_wrt (\<lambda>a b. \<not> near a b) r \<and> (\<forall>a \<in> set r. \<exists>s. title a = PStr s)"
  using assms
proof (induction xs arbitrary: u seen)
  case Nil
  then show ?case by simp
next
  case (Cons x xs)
  from Cons.prems(4) obtain t where t: "title x = PStr t"
    by (auto split: pyval.splits)
  from Cons.prems(4) t obtain d where d: "is_duplicate (title_words t) seen = Inr d"
    by (auto simp: title_words_def split: sum.splits)
  show ?case
  proof (cases d)
    case True
    with Cons.prems(4) t d have "dedup_loop xs u seen = Inr r"
      by (simp add: title_words_def)
    from Cons.IH [OF Cons.prems(1) Cons.prems(2) Cons.prems(3) this] show ?thesis .
  next
    case False
    with Cons.prems(4) t d
    have run: "dedup_loop xs (u @ [x]) (List.insert (lower t) seen) = Inr r"
      by (simp add: title_words_def)
    from d False have "is_duplicate (title_words t) seen = Inr False" by simp
    from accepted_not_near [OF Cons.prems(1) Cons.prems(2) t this] Cons.prems(3)
    have sep: "sorted_wrt (\<lambda>a b. \<not> near a b) (u @ [x])"
      by (simp add: sorted_wrt_append)
    from Cons.IH [OF inv_step [OF Cons.prems(1) Cons.prems(2) t] sep run] show ?thesis .
  qed
qed

lemma dedup_single_seen:
  assumes "set seen = set seen'"
  shows "dedup_loop [b] u seen = dedup_loop [b] u seen'"
proof (cases "title b")
  case (PStr t)
  have "is_duplicate (set (split (lower t))) seen = is_duplicate (set (split (lower t))) seen'"
    using assms by (intro is_duplicate_order) auto
  with PStr show ?thesis by (simp split: sum.splits bool.splits)
qed simp_all

lemma dedup_loop_snoc:
  assumes "\<forall>a \<in> set u. \<exists>s. title a = PStr s" "set seen = set (seen_of u)"
  shows "dedup_loop (xs @ [b]) u seen =
     (case dedup_loop xs u seen of
        Inl e \<Rightarrow> Inl e
      | Inr r \<Rightarrow> dedup_loop [b] r (seen_of r))"
  using assms
proof (induction xs arbitrary: u seen)
  case Nil
  from dedup_single_seen [OF Nil(2)] show ?case by simp
next
  case (Cons x xs)
  show ?case
  proof (cases "title x")
    case (PStr t)
    show ?thesis
    proof (cases "is_duplicate (set (split (lower t))) seen")
      case (Inl e)
      with PStr show ?thesis by simp
    next
      case (Inr d)
      show ?thesis
      proof (cases d)
        case True
        with PStr Inr Cons.IH [OF Cons.prems] show ?thesis by simp
      next
        case False
        with PStr Inr Cons.IH [OF inv_step [OF Cons.prems PStr]] show ?thesis by simp
      qed
    qed
  qed simp_all
qed

lemma deduplicate_snoc:
  assumes b: "title b = PStr t" and ne: "title_words t \<noteq> {}"
  shows "deduplicate_articles (xs @ [b]) =
     (case deduplicate_articles xs of
        Inl e \<Rightarrow> Inl e
      | Inr ys \<Rightarrow> if \<exists>a \<in> set ys. near a b then Inr ys else Inr (ys @ [b]))"
proof (cases "deduplicate_articles xs")
  case (Inl e)
  then show ?thesis
    using dedup_loop_snoc [of "[]" "[]" xs b]
    by (simp add: deduplicate_articles_def seen_of_def)
next
  case (Inr ys)
  then have run: "dedup_loop xs [] [] = Inr ys" by (simp add: deduplicate_articles_def)
  have "sorted_wrt (\<lambda>a b. \<not> near a b) ys \<and> (\<forall>a \<in> set ys. \<exists>s. title a = PStr s)"
    by (rule dedup_loop_separated [OF _ _ _ run]) (simp_all add: seen_of_def)
  then have strs: "\<forall>a \<in> set ys. \<exists>s. title a = PStr s" ..
  have "is_duplicate (title_words t) (seen_of ys) = Inr (\<exists>a \<in> set ys. near a b)"
    by (rule is_duplicate_near [OF strs refl b ne])
  then have "dedup_loop [b] ys (seen_of ys)
      = (if \<exists>a \<in> set ys. near a b then Inr ys else Inr (ys @ [b]))"
    using b by (simp add: title_words_def)
  with run show ?thesis
    using dedup_loop_snoc [of "[]" "[]" xs b]
    by (simp add: deduplicate_articles_def seen_of_def)
qed

lemma deduplicate_separated:
  assumes "deduplicate_articles xs = Inr ys" "i < j" "j < length ys"
  shows "\<not> near (ys ! i) (ys ! j)"
proof -
  from assms(1) have run: "dedup_loop xs [] [] = Inr ys" by (simp add: deduplicate_articles_def)
  have "sorted_wrt (\<lambda>a b. \<not> near a b) ys \<and> (\<forall>a \<in> set ys. \<exists>s. title a = PStr s)"
    by (rule dedup_loop_separated [OF _ _ _ run]) (simp_all add: seen_of_def)
  then have "sorted_wrt (\<lambda>a b. \<not> near a b) ys" ..
  with assms(2,3) show ?thesis by (simp add: sorted_wrt_iff_nth_less)
qed

text \<open>
  Lower-casing covers the letters above 127: the second title below is the first one
  in lower case, the similarity is 1, and only the first-seen article is retained.
\<close>

lemma deduplicate_accented_titles:
  "deduplicate_articles
       [titled ([CHR 0xC9] @ ''COLE news today''), titled ([CHR 0xE9] @ ''cole news today'')]
     = Inr [titled ([CHR 0xC9] @ ''COLE news today'')]"
  by code_simp

text \<open>
  Claim C3 as stated fails on an input of three articles: each article is compared with
  the articles retained before it, not with every article before it. The second title
  is discarded as a duplicate of the first; the third has similarity 5/6 with the
  second, yet it is retained, because its similarity with the first is only 2/3. Of the
  pair formed by the second and the third, the first-seen one is the one discarded.
\<close>

theorem deduplicate_later_of_pair_retained:
  "deduplicate_articles [titled ''a b c d'', titled ''a b c d e'', titled ''a b c d e f'']
     = Inr [titled ''a b c d'', titled ''a b c d e f'']
   \<and> jaccard ''a b c d e'' ''a b c d e f'' = 5 / 6
   \<and> jaccard ''a b c d e'' ''a b c d e f'' > 7 / 10
   \<and> jaccard ''a b c d'' ''a b c d e f'' = 2 / 3"
proof -
  have "deduplicate_articles [titled ''a b c d'', titled ''a b c d e'', titled ''a b c d e f'']
     = Inr [titled ''a b c d'', titled ''a b c d e f'']"
    by code_simp
  moreover have j: "jaccard ''a b c d e'' ''a b c d e f'' = 5 / 6"
    by code_simp
  moreover have "jaccard ''a b c d'' ''a b c d e f'' = 2 / 3"
    by code_simp
  ultimately show ?thesis by simp
qed

text \<open>
  Claim C3, amended. \<^verbatim>\<open>_deduplicate_articles\<close> compares every article with the
  articles retained before it. Whenever it returns a list, no two retained articles
  have a similarity above 0.7. An article with a non-empty token set that is appended
  to an input is retained exactly when its similarity with every article retained from
  that input is at most 0.7; otherwise it is discarded and the earlier articles stay.
  On an input of two articles whose titles have a similarity (the token sets are not
  both empty), both are retained when the similarity is at most 0.7, and only the
  first-seen one when it exceeds 0.7. The titles ``Fed Raises Interest Rates Again''
  and ``Fed Raises Interest Rates'' have similarity 4/5, and only the first-seen one
  survives, in either order.
\<close>

theorem deduplicate_against_retained:
  "(deduplicate_articles xs = Inr ys \<and> i < j \<and> j < length ys \<longrightarrow> \<not> near (ys ! i) (ys ! j))
   \<and> (title b = PStr t \<and> title_words t \<noteq> {} \<longrightarrow>
        deduplicate_articles (xs @ [b]) =
          (case deduplicate_articles xs of
             Inl e \<Rightarrow> Inl e
           | Inr retained \<Rightarrow>
               if \<exists>a \<in> set retained. near a b then Inr retained else Inr (retained @ [b])))
   \<and> (title a = PStr s \<and> title b = PStr t \<and> title_words s \<union> title_words t \<noteq> {} \<longrightarrow>
        (jaccard s t \<le> 7 / 10 \<longrightarrow> deduplicate_articles [a, b] = Inr [a, b])
        \<and> (jaccard s t > 7 / 10 \<longrightarrow> deduplicate_articles [a, b] = Inr [a]))
   \<and> jaccard ''Fed Raises Interest Rates Again'' ''Fed Raises Interest Rates'' = 4 / 5
   \<and> deduplicate_articles
         [titled ''Fed Raises Interest Rates Again'', titled ''Fed Raises Interest Rates'']
       = Inr [titled ''Fed Raises Interest Rates Again'']
   \<and> deduplicate_articles
         [titled ''Fed Raises Interest Rates'', titled ''Fed Raises Interest Rates Again'']
       = Inr [titled ''Fed Raises Interest Rates'']"
proof -
  have separated: "\<not> near (ys ! i) (ys ! j)"
    if "deduplicate_articles xs = Inr ys \<and> i < j \<and> j < length ys"
    using that deduplicate_separated [of xs ys i j] by blast
  have appended: "deduplicate_articles (xs @ [b]) =
          (case deduplicate_articles xs of
             Inl e \<Rightarrow> Inl e
           | Inr retained \<Rightarrow>
               if \<exists>a \<in> set retained. near a b then Inr retained else Inr (retained @ [b]))"
    if "title b = PStr t \<and> title_words t \<noteq> {}"
    using that deduplicate_snoc [of b t xs] by blast
  have pair: "(jaccard s t \<le> 7 / 10 \<longrightarrow> deduplicate_articles [a, b] = Inr [a, b])
        \<and> (jaccard s t > 7 / 10 \<longrightarrow> deduplicate_articles [a, b] = Inr [a])"
    if "title a = PStr s \<and> title b = PStr t \<and> title_words s \<union> title_words t \<noteq> {}"
    using that dedup_pair [of a s b t] by simp
  have fed: "jaccard ''Fed Raises Interest Rates Again'' ''Fed Raises Interest Rates'' = 4 / 5"
    by code_simp
  have fed1: "deduplicate_articles
         [titled ''Fed Raises Interest Rates Again'', titled ''Fed Raises Interest Rates'']
       = Inr [titled ''Fed Raises Interest Rates Again'']"
    by code_simp
  have fed2: "deduplicate_articles
         [titled ''Fed Raises Interest Rates'', titled ''Fed Raises Interest Rates Again'']
       = Inr [titled ''Fed Raises Interest Rates'']"
    by code_simp
  from separated appended pair fed fed1 fed2 show ?thesis by blast
qed

theorem deduplicate_against_retained_witness:
  "deduplicate_articles [titled ''a b c d'', titled ''a b c d e'', titled ''a b c d e f'']
     = Inr [titled ''a b c d'', titled ''a b c d e f'']
   \<and> \<not> near ([titled ''a b c d'', titled ''a b c d e f''] ! 0)
            ([titled ''a b c d'', titled ''a b c d e f''] ! 1)
   \<and> title (titled ''a b c d e f'') = PStr ''a b c d e f''
   \<and> title_words ''a b c d e f'' \<noteq> {}
   \<and> deduplicate_articles [titled ''a b c d'', titled ''a b c d e''] = Inr [titled ''a b c d'']
   \<and> deduplicate_articles ([titled ''a b c d'', titled ''a b c d e''] @ [titled ''a b c d e f''])
     = Inr ([titled ''a b c d''] @ [titled ''a b c d e f''])
   \<and> title (titled ''Fed Cuts Rates'') = PStr ''Fed Cuts Rates''
   \<and> title (titled ''Fed Raises Rates'') = PStr ''Fed Raises Rates''
   \<and> title_words ''Fed Cuts Rates'' \<union> title_words ''Fed Raises Rates'' \<noteq> {}
   \<and> jaccard ''Fed Cuts Rates'' ''Fed Raises Rates'' = 1 / 2
   \<and> deduplicate_articles [titled ''Fed Cuts Rates'', titled ''Fed Raises Rates'']
       = Inr [titled ''Fed Cuts Rates'', titled ''Fed Raises Rates'']"
proof -
  note D = deduplicate_against_retained
  have three: "deduplicate_articles
      [titled ''a b c d'', titled ''a b c d e'', titled ''a b c d e f'']
     = Inr [titled ''a b c d'', titled ''a b c d e f'']"
    by code_simp
  have two: "deduplicate_articles [titled ''a b c d'', titled ''a b c d e'']
      = Inr [titled ''a b c d'']"
    by code_simp
  have far: "\<not> near (titled ''a b c d'') (titled ''a b c d e f'')"
    by code_simp
  have tb: "title (titled ''a b c d e f'') = PStr ''a b c d e f''"
    and a: "title (titled ''Fed Cuts Rates'') = PStr ''Fed Cuts Rates''"
    and b: "title (titled ''Fed Raises Rates'') = PStr ''Fed Raises Rates''"
    by (simp_all add: titled_def)
  have wb: "title_words ''a b c d e f'' \<noteq> {}"
    by code_simp
  have ne: "title_words ''Fed Cuts Rates'' \<union> title_words ''Fed Raises Rates'' \<noteq> {}"
    by code_simp
  have j: "jaccard ''Fed Cuts Rates'' ''Fed Raises Rates'' = 1 / 2"
    by code_simp
  from D [where xs = "[titled ''a b c d'', titled ''a b c d e'', titled ''a b c d e f'']"
      and ys = "[titled ''a b c d'', titled ''a b c d e f'']" and i = 0 and j = 1,
      THEN conjunct1] three
  have c1: "\<not> near ([titled ''a b c d'', titled ''a b c d e f''] ! 0)
            ([titled ''a b c d'', titled ''a b c d e f''] ! 1)"
    by simp
  from D [where b = "titled ''a b c d e f''" and t = "''a b c d e f''"
      and xs = "[titled ''a b c d'', titled ''a b c d e'']", THEN conjunct2, THEN conjunct1]
    tb wb two far
  have c2: "deduplicate_articles
      ([titled ''a b c d'', titled ''a b c d e''] @ [titled ''a b c d e f''])
     = Inr ([titled ''a b c d''] @ [titled ''a b c d e f''])"
    by simp
  from D [where b = "titled ''Fed Raises Rates''" and t = "''Fed Raises Rates''"
      and a = "titled ''Fed Cuts Rates''" and s = "''Fed Cuts Rates''",
      THEN conjunct2, THEN conjunct2, THEN conjunct1] a b ne j
  have c3: "deduplicate_articles [titled ''Fed Cuts Rates'', titled ''Fed Raises Rates'']
       = Inr [titled ''Fed Cuts Rates'', titled ''Fed Raises Rates'']"
    by simp
  from three c1 tb wb two c2 a b ne j c3 show ?thesis by blast
qed

lemma dedup_loop_total:
  assumes "\<forall>a \<in> set xs. \<exists>t. title a = PStr t \<and> title_words t \<noteq> {}"
  shows "\<exists>r. dedup_loop xs u s = Inr r"
  using assms
proof (induction xs arbitrary: u s)
  case Nil
  show ?case by simp
next
  case (Cons a xs)
  from Cons.prems obtain t where t: "title a = PStr t" "title_words t \<noteq> {}"
    by auto
  have "\<exists>b. is_duplicate (set (split (lower t))) s = Inr b"
    using t(2) by (intro is_duplicate_nonempty_total) (auto simp: title_words_def)
  then obtain b where b: "is_duplicate (set (split (lower t))) s = Inr b" ..
  from Cons.prems have rest: "\<forall>a \<in> set xs. \<exists>t. title a = PStr t \<and> title_words t \<noteq> {}"
    by simp
  show ?case
    using t(1) b Cons.IH [OF rest] by (cases b) simp_all
qed

lemma dedup_two_empty:
  assumes "title a = PStr s" "title b = PStr t" "title_words s = {}" "title_words t = {}"
  shows "deduplicate_articles [a, b] = Inl ZeroDivisionError"
  using assms by (simp add: deduplicate_articles_def title_words_def similar_empty_empty)

text \<open>
  Claim C9. The division is unguarded. When every title of the input is a string with
  a non-empty token set, \<^verbatim>\<open>_deduplicate_articles\<close> returns a list: no denominator is
  zero. Two articles whose titles both tokenize to the empty set make the second
  division raise ZeroDivisionError; two titles of spaces only are such an input, and
  each is a non-empty string that the fetchers retain. Two titles of no-break spaces
  (code point 160) are another.
\<close>

theorem jaccard_division_unguarded:
  "((\<forall>a \<in> set articles. \<exists>t. title a = PStr t \<and> title_words t \<noteq> {})
      \<longrightarrow> (\<exists>unique. deduplicate_articles articles = Inr unique))
   \<and> (title a = PStr s \<and> title b = PStr t \<and> title_words s = {} \<and> title_words t = {}
      \<longrightarrow> deduplicate_articles [a, b] = Inl ZeroDivisionError)
   \<and> truthy (PStr '' '') \<and> title_words '' '' = {}
   \<and> deduplicate_articles [titled '' '', titled ''  ''] = Inl ZeroDivisionError
   \<and> title_words [CHR 0xA0] = {}
   \<and> deduplicate_articles [titled [CHR 0xA0], titled [CHR 0xA0, CHR '' '', CHR 0xA0]]
       = Inl ZeroDivisionError"
proof -
  have "truthy (PStr '' '')" by simp
  moreover have "title_words '' '' = {}" by code_simp
  moreover have "deduplicate_articles [titled '' '', titled ''  ''] = Inl ZeroDivisionError"
    by code_simp
  moreover have "title_words [CHR 0xA0] = {}" by code_simp
  moreover have "deduplicate_articles [titled [CHR 0xA0], titled [CHR 0xA0, CHR '' '', CHR 0xA0]]
       = Inl ZeroDivisionError"
    by code_simp
  ultimately show ?thesis
    using dedup_loop_total [of articles "[]" "[]"] dedup_two_empty [of a s b t]
    by (simp add: deduplicate_articles_def)
qed


theorem jaccard_division_unguarded_witness:
  "(\<exists>t. title (titled ''Oil prices slip'') = PStr t \<and> title_words t \<noteq> {})
   \<and> (\<exists>t. title (titled ''New comet spotted'') = PStr t \<and> title_words t \<noteq> {})
   \<and> (\<exists>unique. deduplicate_articles [titled ''Oil prices slip'', titled ''New comet spotted'']
         = Inr unique)
   \<and> title (titled '' '') = PStr '' '' \<and> title (titled ''  '') = PStr ''  ''
   \<and> title_words '' '' = {} \<and> title_words ''  '' = {}
   \<and> deduplicate_articles [titled '' '', titled ''  ''] = Inl ZeroDivisionError"
proof -
  have w1: "title_words ''Oil prices slip'' \<noteq> {}" and w2: "title_words ''New comet spotted'' \<noteq> {}"
    by code_simp+
  have a: "\<exists>t. title (titled ''Oil prices slip'') = PStr t \<and> title_words t \<noteq> {}"
    using w1 by (simp add: titled_def)
  have b: "\<exists>t. title (titled ''New comet spotted'') = PStr t \<and> title_words t \<noteq> {}"
    using w2 by (simp add: titled_def)
  have e1: "title_words '' '' = {}" and e2: "title_words ''  '' = {}"
    by code_simp+
  have t1: "title (titled '' '') = PStr '' ''" and t2: "title (titled ''  '') = PStr ''  ''"
    by (simp_all add: titled_def)
  note J = jaccard_division_unguarded
  from J [of "[titled ''Oil prices slip'', titled ''New comet spotted'']", THEN conjunct1] a b
  have c: "\<exists>unique. deduplicate_articles [titled ''Oil prices slip'', titled ''New comet spotted'']
         = Inr unique"
    by simp
  from J [of _ "titled '' ''" "'' ''" "titled ''  ''" "''  ''", THEN conjunct2, THEN conjunct1]
    t1 t2 e1 e2
  have d: "deduplicate_articles [titled '' '', titled ''  ''] = Inl ZeroDivisionError"
    by simp
  from a b c t1 t2 e1 e2 d show ?thesis by blast
qed


section \<open>Properties of the keyed source\<close>

lemma request_attempts_count:
  "requests (snd (request_attempts env u ps m as tr)) \<le> requests tr + length as"
proof (induction as arbitrary: tr)
  case Nil
  show ?case by simp
next
  case (Cons a as)
  have step: "requests (tr @ [RateLimit, SessionGet u ps]) = requests tr + 1"
    by (simp add: requests_def)
  have step2: "requests (tr @ [RateLimit, SessionGet u ps] @ [Sleep w]) = requests tr + 1" for w
    by (simp add: requests_def)
  show ?case
  proof (cases "session_get env tr u ps")
    case (Json d)
    then show ?thesis using step by (simp add: Let_def)
  next
    case RequestException
    show ?thesis
      using Cons.IH [of "tr @ [RateLimit, SessionGet u ps]"]
        Cons.IH [of "(tr @ [RateLimit, SessionGet u ps]) @ [Sleep (2 ^ a + random_uniform env (tr @ [RateLimit, SessionGet u ps]))]"]
        step step2 RequestException
      by (simp add: Let_def)
  next
    case OtherException
    then show ?thesis using step by (simp add: Let_def)
  qed
qed

lemma fetch_gnews_trace:
  "snd (fetch_gnews env config query n tr) = tr
   \<or> (\<exists>key. snd (fetch_gnews env config query n tr)
         = snd (make_request_with_retry env gnews_base_url (gnews_params query n key) 3 tr))"
proof (cases "news_api_key config")
  case None
  then show ?thesis by (simp add: fetch_gnews_def)
next
  case (Some key)
  obtain r tr' where run:
    "make_request_with_retry env gnews_base_url (gnews_params query n key) 3 tr = (r, tr')"
    by (cases "make_request_with_retry env gnews_base_url (gnews_params query n key) 3 tr")
  have "snd (fetch_gnews env config query n tr) = tr
      \<or> snd (fetch_gnews env config query n tr) = tr'"
    using Some run by (cases r) (simp_all add: fetch_gnews_def)
  with run show ?thesis by (metis snd_conv)
qed

lemma fetch_gnews_count:
  "requests (snd (fetch_gnews env config query n tr)) \<le> requests tr + 3"
proof -
  have "requests (snd (make_request_with_retry env u ps 3 tr)) \<le> requests tr + 3" for u ps
    using request_attempts_count [of env u ps 3 "[0 ..< 3]" tr]
    by (simp add: make_request_with_retry_def)
  with fetch_gnews_trace [of env config query n tr] show ?thesis
    by (elim disjE exE) simp_all
qed

lemma upt_3: "[0 ..< 3] = [0, 1, 2]"
  by (simp add: upt_rec)

lemma retry_all_fail:
  assumes "session_get env tr u ps = RequestException"
    and "session_get env (tr @ [RateLimit, SessionGet u ps,
            Sleep (1 + random_uniform env (tr @ [RateLimit, SessionGet u ps]))]) u ps = RequestException"
    and "session_get env (tr @ [RateLimit, SessionGet u ps,
            Sleep (1 + random_uniform env (tr @ [RateLimit, SessionGet u ps])),
            RateLimit, SessionGet u ps,
            Sleep (2 + random_uniform env (tr @ [RateLimit, SessionGet u ps,
               Sleep (1 + random_uniform env (tr @ [RateLimit, SessionGet u ps])),
               RateLimit, SessionGet u ps]))]) u ps = RequestException"
  shows "make_request_with_retry env u ps 3 tr =
     (Inr PNone, tr @ [RateLimit, SessionGet u ps,
            Sleep (1 + random_uniform env (tr @ [RateLimit, SessionGet u ps])),
            RateLimit, SessionGet u ps,
            Sleep (2 + random_uniform env (tr @ [RateLimit, SessionGet u ps,
               Sleep (1 + random_uniform env (tr @ [RateLimit, SessionGet u ps])),
               RateLimit, SessionGet u ps])),
            RateLimit, SessionGet u ps])"
  using assms by (simp add: make_request_with_retry_def upt_3 Let_def)


text \<open>
  Claim C6. \<^verbatim>\<open>fetch_gnews\<close> sends at most three requests. When all three attempts
  fail with a \<^verbatim>\<open>RequestException\<close>, it sleeps \<open>2^0\<close> plus jitter after the first,
  \<open>2^1\<close> plus jitter after the second, does not sleep after the third, and returns
  the empty list: no exception reaches the caller.
\<close>

theorem fetch_gnews_retry:
  "requests (snd (fetch_gnews env config query n tr)) \<le> requests tr + 3
   \<and> (let u = gnews_base_url;
           ps = gnews_params query n key;
           t1 = tr @ [RateLimit, SessionGet u ps];
           h1 = t1 @ [Sleep (2 ^ 0 + random_uniform env t1)];
           t2 = h1 @ [RateLimit, SessionGet u ps];
           h2 = t2 @ [Sleep (2 ^ 1 + random_uniform env t2)];
           t3 = h2 @ [RateLimit, SessionGet u ps]
       in news_api_key config = Some key \<and> key \<noteq> []
          \<and> session_get env tr u ps = RequestException
          \<and> session_get env h1 u ps = RequestException
          \<and> session_get env h2 u ps = RequestException
          \<longrightarrow> fetch_gnews env config query n tr = (Inr [], t3))"
proof -
  have count: "requests (snd (fetch_gnews env config query n tr)) \<le> requests tr + 3"
    by (rule fetch_gnews_count)
  have fail: "fetch_gnews env config query n tr =
      (Inr [], tr @ [RateLimit, SessionGet u ps,
            Sleep (1 + random_uniform env (tr @ [RateLimit, SessionGet u ps])),
            RateLimit, SessionGet u ps,
            Sleep (2 + random_uniform env (tr @ [RateLimit, SessionGet u ps,
               Sleep (1 + random_uniform env (tr @ [RateLimit, SessionGet u ps])),
               RateLimit, SessionGet u ps])),
            RateLimit, SessionGet u ps])"
    if k: "news_api_key config = Some key" "key \<noteq> []"
      and u: "u = gnews_base_url" and ps: "ps = gnews_params query n key"
      and f0: "session_get env tr u ps = RequestException"
      and f1: "session_get env (tr @ [RateLimit, SessionGet u ps,
            Sleep (1 + random_uniform env (tr @ [RateLimit, SessionGet u ps]))]) u ps = RequestException"
      and f2: "session_get env (tr @ [RateLimit, SessionGet u ps,
            Sleep (1 + random_uniform env (tr @ [RateLimit, SessionGet u ps])),
            RateLimit, SessionGet u ps,
            Sleep (2 + random_uniform env (tr @ [RateLimit, SessionGet u ps,
               Sleep (1 + random_uniform env (tr @ [RateLimit, SessionGet u ps])),
               RateLimit, SessionGet u ps]))]) u ps = RequestException"
    for u ps
  proof -
    note r = retry_all_fail [OF f0 f1 f2]
    show ?thesis
      using k r unfolding u ps
      by (simp add: fetch_gnews_def gnews_parse_def)
  qed
  show ?thesis
    using count fail [OF _ _ refl refl] by (simp add: Let_def)
qed

theorem fetch_gnews_retry_witness:
  "news_api_key (sample_config\<lparr>news_api_key := Some ''k''\<rparr>) = Some ''k'' \<and> ''k'' \<noteq> []
   \<and> (\<forall>h. session_get sample_env h gnews_base_url (gnews_params ''science'' 3 ''k'')
          = RequestException)
   \<and> fetch_gnews sample_env (sample_config\<lparr>news_api_key := Some ''k''\<rparr>) ''science'' 3 []
      = (Inr [],
         [RateLimit, SessionGet gnews_base_url (gnews_params ''science'' 3 ''k''), Sleep (5 / 4),
          RateLimit, SessionGet gnews_base_url (gnews_params ''science'' 3 ''k''), Sleep (9 / 4),
          RateLimit, SessionGet gnews_base_url (gnews_params ''science'' 3 ''k'')])"
proof -
  have k: "news_api_key (sample_config\<lparr>news_api_key := Some ''k''\<rparr>) = Some ''k''"
    by simp
  have f: "session_get sample_env h gnews_base_url (gnews_params ''science'' 3 ''k'')
          = RequestException" for h
    by (simp add: sample_env_def gnews_params_def)
  have j: "random_uniform sample_env h = 1 / 4" for h
    by (simp add: sample_env_def)
  from fetch_gnews_retry [of sample_env "sample_config\<lparr>news_api_key := Some ''k''\<rparr>"
      "''science''" 3 "[]" "''k''"] k f j
  have "fetch_gnews sample_env (sample_config\<lparr>news_api_key := Some ''k''\<rparr>) ''science'' 3 []
      = (Inr [],
         [RateLimit, SessionGet gnews_base_url (gnews_params ''science'' 3 ''k''), Sleep (5 / 4),
          RateLimit, SessionGet gnews_base_url (gnews_params ''science'' 3 ''k''), Sleep (9 / 4),
          RateLimit, SessionGet gnews_base_url (gnews_params ''science'' 3 ''k'')])"
    by (simp add: Let_def)
  with k f show ?thesis by simp
qed


section \<open>Properties of the cache file and of the limit\<close>

lemma from_kwargs_to_dict: "from_kwargs (to_dict a) = Some a"
  by (cases a) (simp add: from_kwargs_def to_dict_def required_fields_def optional_fields_def
      dict_get_def)

lemma load_loop_to_dict: "load_loop (map to_dict xs) acc = Some (acc @ xs)"
  by (induction xs arbitrary: acc) (simp_all add: from_kwargs_to_dict)

lemma load_after_store:
  "load_articles_cache
     (fs(name \<mapsto> PDict [(''timestamp'', ts), (''count'', n),
                        (''articles'', PList (map to_dict articles))])) name = articles"
  by (simp add: load_articles_cache_def dict_get_def load_loop_to_dict)

text \<open>
  Claim C8. When \<^verbatim>\<open>save_articles_cache\<close> returns, the file it names holds the
  document \<open>{timestamp, count, articles}\<close>, and \<^verbatim>\<open>load_articles_cache\<close> of that
  file returns the list of articles that was saved, every field unchanged.
\<close>

theorem cache_round_trip:
  assumes "save_articles_cache env articles cache_file fs tr = (Inr name, fs', tr')"
  shows "load_articles_cache fs' name = articles
    \<and> (\<exists>ts. fs' name = Some (PDict [(''timestamp'', PStr ts),
            (''count'', PInt (int (length articles))),
            (''articles'', PList (map to_dict articles))]))"
proof -
  obtain nm tr1 where nm: "(if cache_file = None \<or> cache_file = Some []
             then (''news_cache_'' @ datetime_today env tr @ ''.json'', tr @ [DatetimeNow])
             else (the cache_file, tr)) = (nm, tr1)"
    by (cases "cache_file = None \<or> cache_file = Some []") auto
  from assms nm have ok: "open_for_writing env nm"
    by (auto simp: save_articles_cache_def Let_def split: if_splits)
  from assms nm ok have name: "name = nm"
    and fs': "fs' = fs(nm \<mapsto> PDict [(''timestamp'', PStr (datetime_now env tr1)),
                   (''count'', PInt (int (length articles))),
                   (''articles'', PList (map to_dict articles))])"
    by (auto simp: save_articles_cache_def Let_def split: if_splits)
  show ?thesis
    unfolding name fs' using load_after_store by simp
qed

theorem cache_round_trip_witness:
  "save_articles_cache sample_env
       [keyed_article ''markets'' ''Oil prices slip'', feed_article ''science'' ''New comet spotted'']
       None Map.empty []
     = (Inr ''news_cache_2024-05-01.json'',
        [''news_cache_2024-05-01.json'' \<mapsto>
           PDict [(''timestamp'', PStr ''2024-05-01T09:00:00''), (''count'', PInt 2),
             (''articles'', PList [to_dict (keyed_article ''markets'' ''Oil prices slip''),
                                   to_dict (feed_article ''science'' ''New comet spotted'')])]],
        [DatetimeNow, DatetimeNow])
   \<and> load_articles_cache
        [''news_cache_2024-05-01.json'' \<mapsto>
           PDict [(''timestamp'', PStr ''2024-05-01T09:00:00''), (''count'', PInt 2),
             (''articles'', PList [to_dict (keyed_article ''markets'' ''Oil prices slip''),
                                   to_dict (feed_article ''science'' ''New comet spotted'')])]]
        ''news_cache_2024-05-01.json''
     = [keyed_article ''markets'' ''Oil prices slip'', feed_article ''science'' ''New comet spotted'']"
proof -
  have save: "save_articles_cache sample_env
       [keyed_article ''markets'' ''Oil prices slip'', feed_article ''science'' ''New comet spotted'']
       None Map.empty []
     = (Inr ''news_cache_2024-05-01.json'',
        [''news_cache_2024-05-01.json'' \<mapsto>
           PDict [(''timestamp'', PStr ''2024-05-01T09:00:00''), (''count'', PInt 2),
             (''articles'', PList [to_dict (keyed_article ''markets'' ''Oil prices slip''),
                                   to_dict (feed_article ''science'' ''New comet spotted'')])]],
        [DatetimeNow, DatetimeNow])"
    by (simp add: save_articles_cache_def sample_env_def Let_def)
  from cache_round_trip [OF save] save show ?thesis by simp
qed

lemma length_py_slice_to: "0 \<le> n \<Longrightarrow> int (length (py_slice_to xs n)) \<le> n"
  by (simp add: py_slice_to_def)

text \<open>
  Claim C1, amended. For a configuration whose \<^verbatim>\<open>max_articles\<close> is not negative,
  a list returned by \<^verbatim>\<open>fetch_trending_news\<close> has at most \<^verbatim>\<open>max_articles\<close>
  articles.
\<close>

theorem fetch_trending_news_bounded:
  assumes "0 \<le> max_articles config"
    and "fetch_trending_news env config tr = (Inr articles, tr')"
  shows "int (length articles) \<le> max_articles config"
proof -
  from assms(2) obtain unique_articles
    where "articles = py_slice_to unique_articles (max_articles config)"
    by (auto simp: fetch_trending_news_def split: prod.splits sum.splits)
  with assms(1) show ?thesis by (simp add: length_py_slice_to)
qed

lemma sample_run:
  "fetch_trending_news sample_env sample_config []
     = (Inr [feed_article ''markets'' ''Copper demand rises'',
             feed_article ''markets'' ''Banks report profits'',
             feed_article ''markets'' ''Retail sales dip'',
             feed_article ''science'' ''New comet spotted''],
        [RateLimit, FeedparserParse (rss_url ''markets''),
         RateLimit, FeedparserParse (rss_url ''science'')])"
  by code_simp

theorem fetch_trending_news_bounded_witness:
  "0 \<le> max_articles sample_config
   \<and> fetch_trending_news sample_env sample_config []
     = (Inr [feed_article ''markets'' ''Copper demand rises'',
             feed_article ''markets'' ''Banks report profits'',
             feed_article ''markets'' ''Retail sales dip'',
             feed_article ''science'' ''New comet spotted''],
        [RateLimit, FeedparserParse (rss_url ''markets''),
         RateLimit, FeedparserParse (rss_url ''science'')])
   \<and> int (length [feed_article ''markets'' ''Copper demand rises'',
             feed_article ''markets'' ''Banks report profits'',
             feed_article ''markets'' ''Retail sales dip'',
             feed_article ''science'' ''New comet spotted'']) \<le> max_articles sample_config"
proof -
  have m: "0 \<le> max_articles sample_config" by (simp add: sample_config_def)
  from fetch_trending_news_bounded [OF m sample_run] m sample_run show ?thesis by simp
qed

text \<open>
  Claim C1 as stated fails for a negative limit, which \<^verbatim>\<open>unique_articles[:n]\<close> reads
  as ``all but the last \<open>-n\<close>'': with \<^verbatim>\<open>max_articles = -1\<close> and three unique
  articles, two are returned.
\<close>

theorem fetch_trending_news_negative_limit:
  "fetch_trending_news sample_env
       (sample_config\<lparr>max_articles := - 1, news_categories := [''markets'']\<rparr>) []
     = (Inr [feed_article ''markets'' ''Copper demand rises'',
             feed_article ''markets'' ''Banks report profits''],
        [RateLimit, FeedparserParse (rss_url ''markets'')])
   \<and> \<not> int (length [feed_article ''markets'' ''Copper demand rises'',
             feed_article ''markets'' ''Banks report profits''])
        \<le> max_articles (sample_config\<lparr>max_articles := - 1, news_categories := [''markets'']\<rparr>)"
proof -
  have "fetch_trending_news sample_env
       (sample_config\<lparr>max_articles := - 1, news_categories := [''markets'']\<rparr>) []
     = (Inr [feed_article ''markets'' ''Copper demand rises'',
             feed_article ''markets'' ''Banks report profits''],
        [RateLimit, FeedparserParse (rss_url ''markets'')])"
    by code_simp
  then show ?thesis by simp
qed


section \<open>Properties of the pipeline\<close>

subsection \<open>Retained articles\<close>

lemma gnews_entries_kept: "a \<in> set (gnews_entries query xs) \<Longrightarrow> kept a"
  by (induction xs) (auto simp: kept_def split: option.splits if_splits)

lemma gnews_parse_kept:
  "gnews_parse query n data = Inr articles \<Longrightarrow> a \<in> set articles \<Longrightarrow> kept a"
  by (auto simp: gnews_parse_def split: if_splits pyval.splits option.splits
      dest: gnews_entries_kept)

lemma fetch_gnews_kept:
  assumes "fetch_gnews env config query n tr = (Inr articles, tr')" "a \<in> set articles"
  shows "kept a"
proof (cases "news_api_key config")
  case None
  with assms show ?thesis by (simp add: fetch_gnews_def)
next
  case (Some key)
  show ?thesis
  proof (cases "key = []")
    case True
    with Some assms show ?thesis by (simp add: fetch_gnews_def)
  next
    case False
    obtain r t where run:
      "make_request_with_retry env gnews_base_url (gnews_params query n key) 3 tr = (r, t)"
      by (cases "make_request_with_retry env gnews_base_url (gnews_params query n key) 3 tr")
    from assms(1) Some False run obtain data where "gnews_parse query n data = Inr articles"
      by (cases r) (auto simp: fetch_gnews_def)
    from this assms(2) show ?thesis by (rule gnews_parse_kept)
  qed
qed

lemma rss_entries_kept: "a \<in> set (rss_entries f cat xs) \<Longrightarrow> kept a"
  by (induction xs) (auto simp: kept_def split: option.splits if_splits)

lemma rss_article_text:
  "rss_article f cat entry = Some a \<Longrightarrow> (\<exists>s. title a = PStr s) \<and> (\<exists>s. summary a = PStr s)"
  by (auto simp: rss_article_def split: option.splits isoformat.splits)

lemma rss_entries_text:
  "a \<in> set (rss_entries f cat xs) \<Longrightarrow> (\<exists>s. title a = PStr s) \<and> (\<exists>s. summary a = PStr s)"
proof (induction xs)
  case Nil
  then show ?case by simp
next
  case (Cons x xs)
  then show ?case
    using rss_article_text [of f cat x]
    by (cases "rss_article f cat x") (auto split: if_splits)
qed

lemma fetch_rss_feed_kept:
  "a \<in> set (fst (fetch_rss_feed env u cat n tr)) \<Longrightarrow> kept a"
  by (auto simp: fetch_rss_feed_def Let_def split: feed_outcome.splits dest: rss_entries_kept)

lemma fetch_rss_feed_text:
  "a \<in> set (fst (fetch_rss_feed env u cat n tr))
     \<Longrightarrow> (\<exists>s. title a = PStr s) \<and> (\<exists>s. summary a = PStr s)"
  by (auto simp: fetch_rss_feed_def Let_def split: feed_outcome.splits dest: rss_entries_text)

lemma mock_loop_kept:
  "\<forall>i \<in> set is. i < 3 \<Longrightarrow> a \<in> set (fst (mock_loop env cat is tr)) \<Longrightarrow> kept a"
proof (induction "is" arbitrary: tr)
  case Nil
  then show ?case by simp
next
  case (Cons i "is")
  from Cons.prems(1) have i: "i = 0 \<or> i = 1 \<or> i = 2" by auto
  obtain arts t where rest: "mock_loop env cat is (tr @ [DatetimeNow]) = (arts, t)"
    by (cases "mock_loop env cat is (tr @ [DatetimeNow])")
  from Cons.prems(2) rest
  have "a \<in> set arts \<or> kept a"
    using i by (auto simp: mock_templates_def kept_def Let_def split: prod.splits)
  moreover have "a \<in> set arts \<Longrightarrow> kept a"
    using Cons.IH [of "tr @ [DatetimeNow]"] Cons.prems(1) rest by simp
  ultimately show ?case by blast
qed

lemma generate_mock_articles_kept:
  assumes "a \<in> set (fst (generate_mock_articles env config cat count tr))"
  shows "kept a"
proof -
  define k where "k = nat (min count (int (length (mock_templates cat))))"
  have "k \<le> 3" by (simp add: k_def mock_templates_def)
  then have small: "\<forall>i \<in> set [0 ..< k]. i < 3" by auto
  from assms have "a \<in> set (fst (mock_loop env cat [0 ..< k] tr))"
    unfolding generate_mock_articles_def k_def by (simp split: if_splits)
  with small show ?thesis by (rule mock_loop_kept)
qed

lemma generate_mock_articles_text:
  assumes "a \<in> set (fst (generate_mock_articles env config cat count tr))"
  shows "\<exists>s. title a = PStr s"
proof -
  have "b \<in> set (fst (mock_loop env cat is t)) \<Longrightarrow> \<exists>s. title b = PStr s" for b "is" t
  proof (induction "is" arbitrary: t)
    case Nil
    then show ?case by simp
  next
    case (Cons i "is")
    obtain arts t' where rest: "mock_loop env cat is (t @ [DatetimeNow]) = (arts, t')"
      by (cases "mock_loop env cat is (t @ [DatetimeNow])")
    obtain x y z where tpl: "mock_templates cat ! i = (x, y, z)"
      by (cases "mock_templates cat ! i")
    from Cons.prems rest tpl have "title b = PStr x \<or> b \<in> set arts"
      by (auto simp: Let_def)
    moreover have "b \<in> set arts \<Longrightarrow> \<exists>s. title b = PStr s"
      using Cons.IH [of "t @ [DatetimeNow]"] rest by simp
    ultimately show ?case by blast
  qed
  with assms show ?thesis
    unfolding generate_mock_articles_def by (simp split: if_splits)
qed



lemma fetch_category_Inr:
  assumes "fetch_category env config cat tr = (Inr articles, tr3)"
  obtains keyed tr1 rss tr2 mock where
    "keyed_stage env config cat tr = (Inr keyed, tr1)"
    "(if length keyed < 2 then fetch_google_news_rss env cat 3 tr1 else ([], tr1)) = (rss, tr2)"
    "(if length (keyed @ rss) < 1 \<and> mock_mode config
      then generate_mock_articles env config cat 2 tr2 else ([], tr2)) = (mock, tr3)"
    "articles = (keyed @ rss) @ mock"
proof -
  obtain r tr1 where k: "keyed_stage env config cat tr = (r, tr1)"
    by (cases "keyed_stage env config cat tr")
  with assms obtain keyed where r: "r = Inr keyed"
    by (cases r) (auto simp: fetch_category_def)
  obtain rss tr2 where f:
    "(if length keyed < 2 then fetch_google_news_rss env cat 3 tr1 else ([], tr1)) = (rss, tr2)"
    by (cases "if length keyed < 2 then fetch_google_news_rss env cat 3 tr1 else ([], tr1)")
  obtain mock t3 where m:
    "(if length (keyed @ rss) < 1 \<and> mock_mode config
      then generate_mock_articles env config cat 2 tr2 else ([], tr2)) = (mock, t3)"
    by (cases "if length (keyed @ rss) < 1 \<and> mock_mode config
      then generate_mock_articles env config cat 2 tr2 else ([], tr2)")
  have "fetch_category env config cat tr = (Inr ((keyed @ rss) @ mock), t3)"
    using k r f m by (simp add: fetch_category_def Let_def)
  with assms have "articles = (keyed @ rss) @ mock" "tr3 = t3" by simp_all
  with k r f m that show thesis by blast
qed

lemma fetch_category_kept:
  assumes "fetch_category env config cat tr = (Inr articles, tr')" "a \<in> set articles"
  shows "kept a"
proof -
  from assms(1) obtain keyed tr1 rss tr2 mock where
    k: "keyed_stage env config cat tr = (Inr keyed, tr1)"
    and f: "(if length keyed < 2 then fetch_google_news_rss env cat 3 tr1 else ([], tr1)) = (rss, tr2)"
    and m: "(if length (keyed @ rss) < 1 \<and> mock_mode config
      then generate_mock_articles env config cat 2 tr2 else ([], tr2)) = (mock, tr')"
    and all: "articles = (keyed @ rss) @ mock"
    by (rule fetch_category_Inr)
  from assms(2) all consider "a \<in> set keyed" | "a \<in> set rss" | "a \<in> set mock" by auto
  then show ?thesis
  proof cases
    case 1
    with k show ?thesis
      by (auto simp: keyed_stage_def split: if_splits dest: fetch_gnews_kept)
  next
    case 2
    with f have "a \<in> set (fst (fetch_google_news_rss env cat 3 tr1))"
      by (auto split: if_splits)
    then show ?thesis
      unfolding fetch_google_news_rss_def by (rule fetch_rss_feed_kept)
  next
    case 3
    with m have "a \<in> set (fst (generate_mock_articles env config cat 2 tr2))"
      by (auto split: if_splits)
    then show ?thesis by (rule generate_mock_articles_kept)
  qed
qed

lemma fetch_categories_kept:
  assumes "fetch_categories env config cats acc tr = (Inr articles, tr')"
    and "\<forall>a \<in> set acc. kept a" and "a \<in> set articles"
  shows "kept a"
  using assms
proof (induction cats arbitrary: acc tr)
  case Nil
  then show ?case by auto
next
  case (Cons c cats)
  obtain r t where c: "fetch_category env config c tr = (r, t)"
    by (cases "fetch_category env config c tr")
  with Cons.prems(1) obtain arts where r: "r = Inr arts"
    by (cases r) auto
  from Cons.prems(1) c r
  have run: "fetch_categories env config cats (acc @ arts) t = (Inr articles, tr')" by simp
  have "\<forall>a \<in> set (acc @ arts). kept a"
    using Cons.prems(2) c r by (auto dest: fetch_category_kept)
  from Cons.IH [OF run this Cons.prems(3)] show ?case .
qed

lemma dedup_loop_subset:
  "dedup_loop xs u s = Inr r \<Longrightarrow> set r \<subseteq> set u \<union> set xs"
proof (induction xs arbitrary: u s)
  case Nil
  then show ?case by simp
next
  case (Cons x xs)
  from Cons.prems obtain t where t: "title x = PStr t"
    by (auto split: pyval.splits)
  from Cons.prems t obtain b where b: "is_duplicate (set (split (lower t))) s = Inr b"
    by (auto split: sum.splits)
  show ?case
  proof (cases b)
    case True
    with Cons.prems t b have "dedup_loop xs u s = Inr r" by simp
    from Cons.IH [OF this] show ?thesis by auto
  next
    case False
    with Cons.prems t b have "dedup_loop xs (u @ [x]) (List.insert (lower t) s) = Inr r" by simp
    from Cons.IH [OF this] show ?thesis by auto
  qed
qed

lemma dedup_loop_titles:
  "dedup_loop xs u s = Inr r \<Longrightarrow> a \<in> set xs \<Longrightarrow> \<exists>t. title a = PStr t"
proof (induction xs arbitrary: u s)
  case Nil
  then show ?case by simp
next
  case (Cons x xs)
  from Cons.prems(1) obtain t where t: "title x = PStr t"
    by (auto split: pyval.splits)
  from Cons.prems(1) t obtain b where b: "is_duplicate (set (split (lower t))) s = Inr b"
    by (auto split: sum.splits)
  show ?case
  proof (cases "a = x")
    case True
    with t show ?thesis by simp
  next
    case False
    with Cons.prems(2) have a: "a \<in> set xs" by simp
    show ?thesis
    proof (cases b)
      case True
      with Cons.prems(1) t b have "dedup_loop xs u s = Inr r" by simp
      from Cons.IH [OF this a] show ?thesis .
    next
      case False
      with Cons.prems(1) t b
      have "dedup_loop xs (u @ [x]) (List.insert (lower t) s) = Inr r" by simp
      from Cons.IH [OF this a] show ?thesis .
    qed
  qed
qed

lemma set_py_slice_to: "set (py_slice_to xs n) \<subseteq> set xs"
  by (auto simp: py_slice_to_def dest: in_set_takeD)

lemma fetch_trending_news_Inr:
  assumes "fetch_trending_news env config tr = (Inr articles, tr')"
  obtains all_articles unique_articles where
    "fetch_categories env config (news_categories config) [] tr = (Inr all_articles, tr')"
    "deduplicate_articles all_articles = Inr unique_articles"
    "articles = py_slice_to unique_articles (max_articles config)"
proof -
  obtain r t where c: "fetch_categories env config (news_categories config) [] tr = (r, t)"
    by (cases "fetch_categories env config (news_categories config) [] tr")
  with assms obtain all_articles where r: "r = Inr all_articles"
    by (cases r) (auto simp: fetch_trending_news_def)
  with assms c obtain unique_articles where
    d: "deduplicate_articles all_articles = Inr unique_articles"
    by (cases "deduplicate_articles all_articles") (auto simp: fetch_trending_news_def)
  with assms c r have "articles = py_slice_to unique_articles (max_articles config)" "tr' = t"
    by (auto simp: fetch_trending_news_def)
  with c r d that show thesis by blast
qed

lemma retained_kept:
  "(fetch_gnews env config query n tr = (Inr articles, tr')
      \<longrightarrow> (\<forall>a \<in> set articles. truthy (title a) \<and> truthy (summary a)))
   \<and> (\<forall>a \<in> set (fst (fetch_rss_feed env feed_url cat n tr)).
        (\<exists>s. title a = PStr s \<and> s \<noteq> []) \<and> (\<exists>s. summary a = PStr s \<and> s \<noteq> []))
   \<and> (fetch_trending_news env config tr = (Inr articles, tr')
      \<longrightarrow> (\<forall>a \<in> set articles. (\<exists>s. title a = PStr s \<and> s \<noteq> []) \<and> truthy (summary a)))"
proof (intro conjI impI ballI)
  fix a
  assume "fetch_gnews env config query n tr = (Inr articles, tr')" "a \<in> set articles"
  then have "kept a" by (rule fetch_gnews_kept)
  then show "truthy (title a)" "truthy (summary a)" by (simp_all add: kept_def)
next
  fix a
  assume a: "a \<in> set (fst (fetch_rss_feed env feed_url cat n tr))"
  then have k: "kept a" by (rule fetch_rss_feed_kept)
  from a have "(\<exists>s. title a = PStr s) \<and> (\<exists>s. summary a = PStr s)"
    by (rule fetch_rss_feed_text)
  with k show "\<exists>s. title a = PStr s \<and> s \<noteq> []" "\<exists>s. summary a = PStr s \<and> s \<noteq> []"
    by (auto simp: kept_def)
next
  fix a
  assume run: "fetch_trending_news env config tr = (Inr articles, tr')" and a: "a \<in> set articles"
  from run obtain all_articles unique_articles where
    c: "fetch_categories env config (news_categories config) [] tr = (Inr all_articles, tr')"
    and d: "deduplicate_articles all_articles = Inr unique_articles"
    and s: "articles = py_slice_to unique_articles (max_articles config)"
    by (rule fetch_trending_news_Inr)
  from a s set_py_slice_to [of unique_articles "max_articles config"]
  have u: "a \<in> set unique_articles" by (simp add: subset_iff)
  from d have "set unique_articles \<subseteq> set [] \<union> set all_articles"
    unfolding deduplicate_articles_def by (rule dedup_loop_subset)
  with u have al: "a \<in> set all_articles" by (simp add: subset_iff)
  have "\<forall>a \<in> set []. kept a" by simp
  with c have k: "kept a" using al by (rule fetch_categories_kept)
  from d al have "\<exists>t. title a = PStr t"
    unfolding deduplicate_articles_def by (rule dedup_loop_titles)
  with k show "\<exists>s. title a = PStr s \<and> s \<noteq> []" by (auto simp: kept_def)
  from k show "truthy (summary a)" by (simp add: kept_def)
qed

lemma truthy_not_empty: "truthy v \<Longrightarrow> v \<noteq> PNone \<and> v \<noteq> PStr []"
  by (cases v) simp_all

lemma nonempty_text_iff: "nonempty_text v \<longleftrightarrow> (\<exists>s. v = PStr s \<and> s \<noteq> [])"
  by (cases v) (simp_all add: nonempty_text_def)

text \<open>
  Claim C2 as stated fails for the keyed source: the test
  \<^verbatim>\<open>if article.title and article.summary\<close> asks for a true value, not for a string.
  An item whose description is the number 5 is kept with that number as its summary,
  by \<^verbatim>\<open>fetch_gnews\<close> and then by \<^verbatim>\<open>fetch_trending_news\<close>.
\<close>

theorem retained_summary_not_text:
  "fetch_gnews untyped_env untyped_config ''rates'' 3 []
     = (Inr [untyped_article],
        [RateLimit, SessionGet gnews_base_url (gnews_params ''rates'' 3 ''k'')])
   \<and> fetch_trending_news untyped_env untyped_config []
     = (Inr [untyped_article],
        [RateLimit, SessionGet gnews_base_url (gnews_params ''rates'' 3 ''k''),
         RateLimit, FeedparserParse (rss_url ''rates'')])
   \<and> summary untyped_article = PInt 5
   \<and> \<not> nonempty_text (summary untyped_article)"
proof -
  have "fetch_gnews untyped_env untyped_config ''rates'' 3 []
     = (Inr [untyped_article],
        [RateLimit, SessionGet gnews_base_url (gnews_params ''rates'' 3 ''k'')])"
    by code_simp
  moreover have "fetch_trending_news untyped_env untyped_config []
     = (Inr [untyped_article],
        [RateLimit, SessionGet gnews_base_url (gnews_params ''rates'' 3 ''k''),
         RateLimit, FeedparserParse (rss_url ''rates'')])"
    by code_simp
  moreover have "summary untyped_article = PInt 5"
    by (simp add: untyped_article_def)
  ultimately show ?thesis by (simp add: nonempty_text_def)
qed

text \<open>
  Claim C2, amended. Every article returned by \<^verbatim>\<open>fetch_gnews\<close> has a title and a
  summary that pass the test \<^verbatim>\<open>if article.title and article.summary\<close>: neither is
  \<^verbatim>\<open>None\<close> or the empty string, and a title or summary that is a string is not empty;
  a value of another type that is true, such as a number other than zero, is kept as
  it is. Every article returned by \<^verbatim>\<open>fetch_rss_feed\<close> has a non-empty string as
  title and as summary. Every article returned by \<^verbatim>\<open>fetch_trending_news\<close> has a
  non-empty string as title and a summary that passes the test.
\<close>

theorem retained_articles_truthy:
  "(fetch_gnews env config query n tr = (Inr articles, tr')
      \<longrightarrow> (\<forall>a \<in> set articles.
            truthy (title a) \<and> truthy (summary a)
            \<and> title a \<noteq> PNone \<and> title a \<noteq> PStr []
            \<and> summary a \<noteq> PNone \<and> summary a \<noteq> PStr []))
   \<and> (\<forall>a \<in> set (fst (fetch_rss_feed env feed_url cat n tr)).
        nonempty_text (title a) \<and> nonempty_text (summary a))
   \<and> (fetch_trending_news env config tr = (Inr articles, tr')
      \<longrightarrow> (\<forall>a \<in> set articles.
            nonempty_text (title a) \<and> truthy (summary a)
            \<and> summary a \<noteq> PNone \<and> summary a \<noteq> PStr []))"
proof -
  note K = retained_kept [of env config query n tr articles tr' feed_url cat]
  have keyed: "truthy (title a) \<and> truthy (summary a)
            \<and> title a \<noteq> PNone \<and> title a \<noteq> PStr []
            \<and> summary a \<noteq> PNone \<and> summary a \<noteq> PStr []"
    if "fetch_gnews env config query n tr = (Inr articles, tr')" "a \<in> set articles" for a
  proof -
    from K that have "truthy (title a)" "truthy (summary a)" by blast+
    then show ?thesis using truthy_not_empty by blast
  qed
  have feed: "nonempty_text (title a) \<and> nonempty_text (summary a)"
    if "a \<in> set (fst (fetch_rss_feed env feed_url cat n tr))" for a
    using K that unfolding nonempty_text_iff by blast
  have whole: "nonempty_text (title a) \<and> truthy (summary a)
            \<and> summary a \<noteq> PNone \<and> summary a \<noteq> PStr []"
    if "fetch_trending_news env config tr = (Inr articles, tr')" "a \<in> set articles" for a
  proof -
    from K that have "\<exists>s. title a = PStr s \<and> s \<noteq> []" "truthy (summary a)" by blast+
    then show ?thesis using truthy_not_empty [of "summary a"] unfolding nonempty_text_iff by blast
  qed
  from keyed feed whole show ?thesis by blast
qed

theorem retained_articles_truthy_witness:
  "fetch_gnews untyped_env untyped_config ''rates'' 3 []
     = (Inr [untyped_article],
        [RateLimit, SessionGet gnews_base_url (gnews_params ''rates'' 3 ''k'')])
   \<and> truthy (title untyped_article) \<and> truthy (summary untyped_article)
   \<and> title untyped_article \<noteq> PStr [] \<and> summary untyped_article \<noteq> PStr []
   \<and> feed_article ''science'' ''New comet spotted''
       \<in> set (fst (fetch_rss_feed sample_env (rss_url ''science'') ''science'' 3 []))
   \<and> nonempty_text (title (feed_article ''science'' ''New comet spotted''))
   \<and> nonempty_text (summary (feed_article ''science'' ''New comet spotted''))
   \<and> fetch_trending_news sample_env sample_config []
     = (Inr [feed_article ''markets'' ''Copper demand rises'',
             feed_article ''markets'' ''Banks report profits'',
             feed_article ''markets'' ''Retail sales dip'',
             feed_article ''science'' ''New comet spotted''],
        [RateLimit, FeedparserParse (rss_url ''markets''),
         RateLimit, FeedparserParse (rss_url ''science'')])
   \<and> nonempty_text (title (feed_article ''markets'' ''Retail sales dip''))
   \<and> truthy (summary (feed_article ''markets'' ''Retail sales dip''))"
proof -
  have g: "fetch_gnews untyped_env untyped_config ''rates'' 3 []
     = (Inr [untyped_article],
        [RateLimit, SessionGet gnews_base_url (gnews_params ''rates'' 3 ''k'')])"
    by code_simp
  have r: "feed_article ''science'' ''New comet spotted''
       \<in> set (fst (fetch_rss_feed sample_env (rss_url ''science'') ''science'' 3 []))"
    by code_simp
  have t: "fetch_trending_news sample_env sample_config []
     = (Inr [feed_article ''markets'' ''Copper demand rises'',
             feed_article ''markets'' ''Banks report profits'',
             feed_article ''markets'' ''Retail sales dip'',
             feed_article ''science'' ''New comet spotted''],
        [RateLimit, FeedparserParse (rss_url ''markets''),
         RateLimit, FeedparserParse (rss_url ''science'')])"
    by code_simp
  note R = retained_articles_truthy
  from R [THEN conjunct1, rule_format, OF g, of untyped_article]
  have a: "truthy (title untyped_article) \<and> truthy (summary untyped_article)
     \<and> title untyped_article \<noteq> PStr [] \<and> summary untyped_article \<noteq> PStr []"
    by simp
  from R [THEN conjunct2, THEN conjunct1, rule_format, OF r]
  have b: "nonempty_text (title (feed_article ''science'' ''New comet spotted''))
   \<and> nonempty_text (summary (feed_article ''science'' ''New comet spotted''))" .
  from R [THEN conjunct2, THEN conjunct2, rule_format, OF t,
      of "feed_article ''markets'' ''Retail sales dip''"]
  have c: "nonempty_text (title (feed_article ''markets'' ''Retail sales dip''))
   \<and> truthy (summary (feed_article ''markets'' ''Retail sales dip''))"
    by simp
  from g a r b t c show ?thesis by blast
qed

lemma fetch_google_news_rss_trace:
  "snd (fetch_google_news_rss env cat n tr) = tr @ [RateLimit, FeedparserParse (rss_url cat)]"
  by (simp add: fetch_google_news_rss_def fetch_rss_feed_def Let_def split: feed_outcome.splits)

lemma mock_loop_trace:
  "snd (mock_loop env cat is tr) = tr @ replicate (length is) DatetimeNow"
proof (induction "is" arbitrary: tr)
  case Nil
  show ?case by simp
next
  case (Cons i "is")
  obtain x y z where tpl: "mock_templates cat ! i = (x, y, z)"
    by (cases "mock_templates cat ! i")
  obtain arts t where rest: "mock_loop env cat is (tr @ [DatetimeNow]) = (arts, t)"
    by (cases "mock_loop env cat is (tr @ [DatetimeNow])")
  from Cons.IH [of "tr @ [DatetimeNow]"] rest
  have "t = tr @ DatetimeNow # replicate (length is) DatetimeNow" by simp
  with tpl rest show ?case by (simp add: Let_def)
qed

lemma generate_mock_articles_trace:
  "\<exists>k. snd (generate_mock_articles env config cat count tr) = tr @ replicate k DatetimeNow"
proof (cases "mock_mode config")
  case False
  then have "snd (generate_mock_articles env config cat count tr) = tr @ replicate 0 DatetimeNow"
    by (simp add: generate_mock_articles_def)
  then show ?thesis ..
next
  case True
  then show ?thesis
    by (simp add: generate_mock_articles_def mock_loop_trace)
qed

lemma feed_calls_append: "feed_calls (xs @ ys) = feed_calls xs + feed_calls ys"
  by (simp add: feed_calls_def)

lemma feed_calls_replicate_now: "feed_calls (replicate k DatetimeNow) = 0"
  by (simp add: feed_calls_def)

text \<open>
  Claim C5. For one topic of \<^verbatim>\<open>fetch_trending_news\<close>, let the keyed stage return
  the list \<open>keyed\<close>. Without an API key the keyed source is skipped and \<open>keyed\<close> is
  empty. When \<open>keyed\<close> has fewer than two articles, the feed fallback is called
  exactly once, right after the keyed stage; when it has two or more, nothing is
  called after the keyed stage and the topic yields \<open>keyed\<close>.
\<close>

theorem feed_fallback_condition:
  assumes "keyed_stage env config cat tr = (Inr keyed, tr1)"
  shows "(news_api_key config = None \<or> news_api_key config = Some [] \<longrightarrow> keyed = [] \<and> tr1 = tr)
    \<and> (length keyed < 2 \<longrightarrow>
          (\<exists>articles tr3. fetch_category env config cat tr = (Inr articles, tr3)
             \<and> take (length tr1 + 2) tr3 = tr1 @ [RateLimit, FeedparserParse (rss_url cat)]
             \<and> feed_calls tr3 = feed_calls tr1 + 1))
    \<and> (2 \<le> length keyed \<longrightarrow> fetch_category env config cat tr = (Inr keyed, tr1))"
proof -
  have skipped: "keyed = [] \<and> tr1 = tr"
    if "news_api_key config = None \<or> news_api_key config = Some []"
    using that assms by (auto simp: keyed_stage_def)
  have invoked: "\<exists>articles tr3. fetch_category env config cat tr = (Inr articles, tr3)
             \<and> take (length tr1 + 2) tr3 = tr1 @ [RateLimit, FeedparserParse (rss_url cat)]
             \<and> feed_calls tr3 = feed_calls tr1 + 1"
    if few: "length keyed < 2"
  proof -
  obtain rss tr2 where f: "fetch_google_news_rss env cat 3 tr1 = (rss, tr2)"
    by (cases "fetch_google_news_rss env cat 3 tr1")
  with fetch_google_news_rss_trace [of env cat 3 tr1]
  have tr2: "tr2 = tr1 @ [RateLimit, FeedparserParse (rss_url cat)]" by simp
  obtain mock tr3 where m:
    "(if length (keyed @ rss) < 1 \<and> mock_mode config
      then generate_mock_articles env config cat 2 tr2 else ([], tr2)) = (mock, tr3)"
    by (cases "if length (keyed @ rss) < 1 \<and> mock_mode config
      then generate_mock_articles env config cat 2 tr2 else ([], tr2)")
  have "\<exists>k. tr3 = tr2 @ replicate k DatetimeNow"
  proof (cases "length (keyed @ rss) < 1 \<and> mock_mode config")
    case True
    with m generate_mock_articles_trace [of env config cat 2 tr2] show ?thesis by auto
  next
    case False
    with m have "tr3 = tr2 @ replicate 0 DatetimeNow" by auto
    then show ?thesis ..
  qed
  then obtain k where tr3: "tr3 = tr2 @ replicate k DatetimeNow" ..
  have run: "fetch_category env config cat tr = (Inr ((keyed @ rss) @ mock), tr3)"
    using assms few f m by (simp add: fetch_category_def Let_def)
  have "take (length tr1 + 2) tr3 = tr1 @ [RateLimit, FeedparserParse (rss_url cat)]"
    unfolding tr3 tr2 by simp
  moreover have "feed_calls tr3 = feed_calls tr1 + 1"
    unfolding tr3 tr2 by (simp add: feed_calls_append feed_calls_replicate_now)
       (simp add: feed_calls_def)
    ultimately show ?thesis using run by blast
  qed
  have not_invoked: "fetch_category env config cat tr = (Inr keyed, tr1)"
    if "2 \<le> length keyed"
  proof -
    from that have "\<not> length keyed < 2" "keyed \<noteq> []" by auto
    with assms show ?thesis by (simp add: fetch_category_def Let_def)
  qed
  from skipped invoked not_invoked show ?thesis by blast
qed


theorem feed_fallback_condition_witness:
  "keyed_stage sample_env (sample_config\<lparr>news_api_key := Some ''k''\<rparr>) ''markets'' []
     = (Inr [keyed_article ''markets'' ''Stocks climb on earnings'',
             keyed_article ''markets'' ''Oil prices slip'',
             keyed_article ''markets'' ''Bond yields hold steady''],
        [RateLimit, SessionGet gnews_base_url (gnews_params ''markets'' 3 ''k'')])
   \<and> fetch_category sample_env (sample_config\<lparr>news_api_key := Some ''k''\<rparr>) ''markets'' []
     = (Inr [keyed_article ''markets'' ''Stocks climb on earnings'',
             keyed_article ''markets'' ''Oil prices slip'',
             keyed_article ''markets'' ''Bond yields hold steady''],
        [RateLimit, SessionGet gnews_base_url (gnews_params ''markets'' 3 ''k'')])
   \<and> news_api_key sample_config = None
   \<and> keyed_stage sample_env sample_config ''science'' [] = (Inr [], [])
   \<and> (\<exists>articles tr3. fetch_category sample_env sample_config ''science'' [] = (Inr articles, tr3)
         \<and> take 2 tr3 = [RateLimit, FeedparserParse (rss_url ''science'')]
         \<and> feed_calls tr3 = 1)"
proof -
  have k1: "keyed_stage sample_env (sample_config\<lparr>news_api_key := Some ''k''\<rparr>) ''markets'' []
     = (Inr [keyed_article ''markets'' ''Stocks climb on earnings'',
             keyed_article ''markets'' ''Oil prices slip'',
             keyed_article ''markets'' ''Bond yields hold steady''],
        [RateLimit, SessionGet gnews_base_url (gnews_params ''markets'' 3 ''k'')])"
    by code_simp
  have k2: "keyed_stage sample_env sample_config ''science'' [] = (Inr [], [])"
    by (simp add: keyed_stage_def sample_config_def)
  have n: "news_api_key sample_config = None"
    by (simp add: sample_config_def)
  from feed_fallback_condition [OF k1]
  have a: "fetch_category sample_env (sample_config\<lparr>news_api_key := Some ''k''\<rparr>) ''markets'' []
     = (Inr [keyed_article ''markets'' ''Stocks climb on earnings'',
             keyed_article ''markets'' ''Oil prices slip'',
             keyed_article ''markets'' ''Bond yields hold steady''],
        [RateLimit, SessionGet gnews_base_url (gnews_params ''markets'' 3 ''k'')])"
    by simp
  from feed_fallback_condition [OF k2]
  have b: "\<exists>articles tr3. fetch_category sample_env sample_config ''science'' [] = (Inr articles, tr3)
         \<and> take 2 tr3 = [RateLimit, FeedparserParse (rss_url ''science'')]
         \<and> feed_calls tr3 = 1"
    by (simp add: feed_calls_def numeral_2_eq_2)
  from k1 a n k2 b show ?thesis by blast
qed

subsection \<open>Mock articles\<close>

lemma upt_2: "[0 ..< 2] = [0, 1]"
  by (simp add: upt_rec)

lemma generate_mock_two:
  assumes "mock_mode config"
  shows "\<exists>m1 m2. generate_mock_articles env config cat 2 tr
            = ([m1, m2], tr @ [DatetimeNow, DatetimeNow])
      \<and> title m1 = PStr (''Breaking: Major Development in '' @ py_title cat)
      \<and> title m2 = PStr (py_title cat @ '' Trends Show Positive Growth'')
      \<and> source m1 = PStr ''Mock News Network'' \<and> source m2 = PStr ''Global Analysis Today''
      \<and> category m1 = PStr cat \<and> category m2 = PStr cat"
proof -
  have len: "nat (min 2 (int (length (mock_templates cat)))) = 2"
    by (simp add: mock_templates_def)
  show ?thesis
    using assms unfolding generate_mock_articles_def len upt_2
    by (simp add: mock_templates_def Let_def)
qed

text \<open>
  Claim C10. For one topic of \<^verbatim>\<open>fetch_trending_news\<close>, let the keyed stage return
  \<open>keyed\<close> and the feed stage \<open>rss\<close>. When both are empty and \<^verbatim>\<open>mock_mode\<close> is
  set, the topic yields the two articles that \<^verbatim>\<open>generate_mock_articles\<close> builds
  from its first two templates. When one of them is not empty, or \<^verbatim>\<open>mock_mode\<close> is
  not set, the topic yields \<open>keyed @ rss\<close> alone, and without \<^verbatim>\<open>mock_mode\<close>
  \<^verbatim>\<open>generate_mock_articles\<close> returns the empty list.
\<close>

theorem mock_fallback_stage:
  assumes "keyed_stage env config cat tr = (Inr keyed, tr1)"
    and "(if length keyed < 2 then fetch_google_news_rss env cat 3 tr1 else ([], tr1)) = (rss, tr2)"
  shows "(keyed = [] \<and> rss = [] \<and> mock_mode config \<longrightarrow>
       (\<exists>m1 m2. fetch_category env config cat tr = (Inr [m1, m2], tr2 @ [DatetimeNow, DatetimeNow])
          \<and> generate_mock_articles env config cat 2 tr2
               = ([m1, m2], tr2 @ [DatetimeNow, DatetimeNow])
          \<and> title m1 = PStr (''Breaking: Major Development in '' @ py_title cat)
          \<and> title m2 = PStr (py_title cat @ '' Trends Show Positive Growth'')
          \<and> source m1 = PStr ''Mock News Network'' \<and> source m2 = PStr ''Global Analysis Today''
          \<and> category m1 = PStr cat \<and> category m2 = PStr cat))
    \<and> (keyed @ rss \<noteq> [] \<or> \<not> mock_mode config \<longrightarrow>
          fetch_category env config cat tr = (Inr (keyed @ rss), tr2))
    \<and> (\<not> mock_mode config \<longrightarrow> generate_mock_articles env config cat count tr' = ([], tr'))"
proof -
  have mock: "\<exists>m1 m2. fetch_category env config cat tr = (Inr [m1, m2], tr2 @ [DatetimeNow, DatetimeNow])
          \<and> generate_mock_articles env config cat 2 tr2
               = ([m1, m2], tr2 @ [DatetimeNow, DatetimeNow])
          \<and> title m1 = PStr (''Breaking: Major Development in '' @ py_title cat)
          \<and> title m2 = PStr (py_title cat @ '' Trends Show Positive Growth'')
          \<and> source m1 = PStr ''Mock News Network'' \<and> source m2 = PStr ''Global Analysis Today''
          \<and> category m1 = PStr cat \<and> category m2 = PStr cat"
    if e: "keyed = []" "rss = []" and m: "mock_mode config"
  proof -
    from generate_mock_two [OF m, of env cat tr2] obtain m1 m2 where
      g: "generate_mock_articles env config cat 2 tr2 = ([m1, m2], tr2 @ [DatetimeNow, DatetimeNow])"
      and t: "title m1 = PStr (''Breaking: Major Development in '' @ py_title cat)"
        "title m2 = PStr (py_title cat @ '' Trends Show Positive Growth'')"
        "source m1 = PStr ''Mock News Network''" "source m2 = PStr ''Global Analysis Today''"
        "category m1 = PStr cat" "category m2 = PStr cat"
      by blast
    from assms e have f: "fetch_google_news_rss env cat 3 tr1 = ([], tr2)" by simp
    have "fetch_category env config cat tr = (Inr [m1, m2], tr2 @ [DatetimeNow, DatetimeNow])"
      using assms(1) e f m g by (simp add: fetch_category_def Let_def)
    with g t show ?thesis by blast
  qed
  have real: "fetch_category env config cat tr = (Inr (keyed @ rss), tr2)"
    if "keyed @ rss \<noteq> [] \<or> \<not> mock_mode config"
  proof -
    obtain r t where f: "fetch_google_news_rss env cat 3 tr1 = (r, t)"
      by (cases "fetch_google_news_rss env cat 3 tr1")
    have rt: "(r, t) = (rss, tr2)" if "length keyed < 2"
      using that assms(2) f by simp
    have none: "(rss, tr2) = ([], tr1)" if "\<not> length keyed < 2"
      using that assms(2) by simp
    from that show ?thesis
    proof
      assume ne: "keyed @ rss \<noteq> []"
      show ?thesis
      proof (cases "length keyed < 2")
        case True
        with assms(1) f rt ne show ?thesis
          by (auto simp: fetch_category_def Let_def)
      next
        case False
        with assms(1) none ne show ?thesis
          by (auto simp: fetch_category_def Let_def)
      qed
    next
      assume off: "\<not> mock_mode config"
      show ?thesis
      proof (cases "length keyed < 2")
        case True
        with assms(1) f rt off show ?thesis
          by (auto simp: fetch_category_def Let_def)
      next
        case False
        with assms(1) none off show ?thesis
          by (auto simp: fetch_category_def Let_def)
      qed
    qed
  qed
  have off: "generate_mock_articles env config cat count tr' = ([], tr')"
    if "\<not> mock_mode config"
    using that by (simp add: generate_mock_articles_def)
  from mock real off show ?thesis by blast
qed


theorem mock_fallback_stage_witness:
  "keyed_stage sample_env (sample_config\<lparr>mock_mode := True\<rparr>) ''sports'' [] = (Inr [], [])
   \<and> (if length ([] :: NewsArticle list) < 2
        then fetch_google_news_rss sample_env ''sports'' 3 [] else ([], []))
      = ([], [RateLimit, FeedparserParse (rss_url ''sports'')])
   \<and> mock_mode (sample_config\<lparr>mock_mode := True\<rparr>)
   \<and> (\<exists>m1 m2. fetch_category sample_env (sample_config\<lparr>mock_mode := True\<rparr>) ''sports'' []
          = (Inr [m1, m2],
             [RateLimit, FeedparserParse (rss_url ''sports''), DatetimeNow, DatetimeNow])
        \<and> title m1 = PStr ''Breaking: Major Development in Sports''
        \<and> title m2 = PStr ''Sports Trends Show Positive Growth'')
   \<and> \<not> mock_mode sample_config
   \<and> keyed_stage sample_env sample_config ''sports'' [] = (Inr [], [])
   \<and> fetch_category sample_env sample_config ''sports'' []
      = (Inr [], [RateLimit, FeedparserParse (rss_url ''sports'')])"
proof -
  have k: "keyed_stage sample_env (sample_config\<lparr>mock_mode := True\<rparr>) ''sports'' [] = (Inr [], [])"
    by (simp add: keyed_stage_def sample_config_def)
  have k': "keyed_stage sample_env sample_config ''sports'' [] = (Inr [], [])"
    by (simp add: keyed_stage_def sample_config_def)
  have f: "(if length ([] :: NewsArticle list) < 2
        then fetch_google_news_rss sample_env ''sports'' 3 [] else ([], []))
      = ([], [RateLimit, FeedparserParse (rss_url ''sports'')])"
    by code_simp
  have m: "mock_mode (sample_config\<lparr>mock_mode := True\<rparr>)" by simp
  have m': "\<not> mock_mode sample_config" by (simp add: sample_config_def)
  have t: "py_title ''sports'' = ''Sports''" by code_simp
  from mock_fallback_stage [OF k f] m t
  have a: "\<exists>m1 m2. fetch_category sample_env (sample_config\<lparr>mock_mode := True\<rparr>) ''sports'' []
          = (Inr [m1, m2],
             [RateLimit, FeedparserParse (rss_url ''sports''), DatetimeNow, DatetimeNow])
        \<and> title m1 = PStr ''Breaking: Major Development in Sports''
        \<and> title m2 = PStr ''Sports Trends Show Positive Growth''"
    by auto
  from mock_fallback_stage [OF k' f] m'
  have b: "fetch_category sample_env sample_config ''sports'' []
      = (Inr [], [RateLimit, FeedparserParse (rss_url ''sports'')])"
    by simp
  from k f m a m' k' b show ?thesis by blast
qed

subsection \<open>The whole pipeline\<close>

lemma fetch_categories_per_topic:
  "fetch_categories env config cats acc tr =
     (case per_topic env config cats tr of
        (Inl e, tr') \<Rightarrow> (Inl e, tr')
      | (Inr parts, tr') \<Rightarrow> (Inr (acc @ concat parts), tr'))"
proof (induction cats arbitrary: acc tr)
  case Nil
  show ?case by simp
next
  case (Cons c cats)
  obtain r t where c: "fetch_category env config c tr = (r, t)"
    by (cases "fetch_category env config c tr")
  show ?case
  proof (cases r)
    case (Inl e)
    with c show ?thesis by simp
  next
    case (Inr arts)
    obtain r' t' where p: "per_topic env config cats t = (r', t')"
      by (cases "per_topic env config cats t")
    from c Inr p Cons.IH [of "acc @ arts" t] show ?thesis
      by (cases r') simp_all
  qed
qed

text \<open>
  Claim C7. \<^verbatim>\<open>fetch_trending_news\<close> returns the lists of the topics, taken in the
  order of \<^verbatim>\<open>news_categories\<close>, concatenated in that order, deduplicated and then
  cut at \<^verbatim>\<open>max_articles\<close>. With two topics that yield three articles each, all six
  unique, and a limit of four, it returns the three articles of the first topic
  followed by the first article of the second.
\<close>

theorem fetch_trending_news_order:
  "fetch_trending_news env config tr =
     (case per_topic env config (news_categories config) tr of
        (Inl e, tr') \<Rightarrow> (Inl e, tr')
      | (Inr parts, tr') \<Rightarrow>
          (case deduplicate_articles (concat parts) of
             Inl e \<Rightarrow> (Inl e, tr')
           | Inr unique_articles \<Rightarrow>
               (Inr (py_slice_to unique_articles (max_articles config)), tr')))
   \<and> (news_categories config = [topic1, topic2] \<and> max_articles config = 4
        \<and> fetch_category env config topic1 tr = (Inr [a1, a2, a3], tr1)
        \<and> fetch_category env config topic2 tr1 = (Inr [b1, b2, b3], tr2)
        \<and> deduplicate_articles [a1, a2, a3, b1, b2, b3] = Inr [a1, a2, a3, b1, b2, b3]
      \<longrightarrow> fetch_trending_news env config tr = (Inr [a1, a2, a3, b1], tr2))"
proof -
  have general: "fetch_trending_news env config tr =
     (case per_topic env config (news_categories config) tr of
        (Inl e, tr') \<Rightarrow> (Inl e, tr')
      | (Inr parts, tr') \<Rightarrow>
          (case deduplicate_articles (concat parts) of
             Inl e \<Rightarrow> (Inl e, tr')
           | Inr unique_articles \<Rightarrow>
               (Inr (py_slice_to unique_articles (max_articles config)), tr')))"
  proof -
    obtain r t where p: "per_topic env config (news_categories config) tr = (r, t)"
      by (cases "per_topic env config (news_categories config) tr")
    show ?thesis
      unfolding fetch_trending_news_def fetch_categories_per_topic p
      by (cases r) simp_all
  qed
  have scenario: "fetch_trending_news env config tr = (Inr [a1, a2, a3, b1], tr2)"
    if "news_categories config = [topic1, topic2]" "max_articles config = 4"
      "fetch_category env config topic1 tr = (Inr [a1, a2, a3], tr1)"
      "fetch_category env config topic2 tr1 = (Inr [b1, b2, b3], tr2)"
      "deduplicate_articles [a1, a2, a3, b1, b2, b3] = Inr [a1, a2, a3, b1, b2, b3]"
    using that unfolding general by (simp add: py_slice_to_def)
  from general scenario show ?thesis by blast
qed

lemma sample_markets:
  "fetch_category sample_env sample_config ''markets'' []
     = (Inr [feed_article ''markets'' ''Copper demand rises'',
             feed_article ''markets'' ''Banks report profits'',
             feed_article ''markets'' ''Retail sales dip''],
        [RateLimit, FeedparserParse (rss_url ''markets'')])"
  by code_simp

lemma sample_science:
  "fetch_category sample_env sample_config ''science''
       [RateLimit, FeedparserParse (rss_url ''markets'')]
     = (Inr [feed_article ''science'' ''New comet spotted'',
             feed_article ''science'' ''Fusion record broken'',
             feed_article ''science'' ''Ocean probe launched''],
        [RateLimit, FeedparserParse (rss_url ''markets''),
         RateLimit, FeedparserParse (rss_url ''science'')])"
  by code_simp

lemma sample_unique:
  "deduplicate_articles
       [feed_article ''markets'' ''Copper demand rises'',
        feed_article ''markets'' ''Banks report profits'',
        feed_article ''markets'' ''Retail sales dip'',
        feed_article ''science'' ''New comet spotted'',
        feed_article ''science'' ''Fusion record broken'',
        feed_article ''science'' ''Ocean probe launched'']
     = Inr [feed_article ''markets'' ''Copper demand rises'',
        feed_article ''markets'' ''Banks report profits'',
        feed_article ''markets'' ''Retail sales dip'',
        feed_article ''science'' ''New comet spotted'',
        feed_article ''science'' ''Fusion record broken'',
        feed_article ''science'' ''Ocean probe launched'']"
  by code_simp

theorem fetch_trending_news_order_witness:
  "news_categories sample_config = [''markets'', ''science''] \<and> max_articles sample_config = 4
   \<and> fetch_category sample_env sample_config ''markets'' []
     = (Inr [feed_article ''markets'' ''Copper demand rises'',
             feed_article ''markets'' ''Banks report profits'',
             feed_article ''markets'' ''Retail sales dip''],
        [RateLimit, FeedparserParse (rss_url ''markets'')])
   \<and> fetch_category sample_env sample_config ''science''
       [RateLimit, FeedparserParse (rss_url ''markets'')]
     = (Inr [feed_article ''science'' ''New comet spotted'',
             feed_article ''science'' ''Fusion record broken'',
             feed_article ''science'' ''Ocean probe launched''],
        [RateLimit, FeedparserParse (rss_url ''markets''),
         RateLimit, FeedparserParse (rss_url ''science'')])
   \<and> fetch_trending_news sample_env sample_config []
     = (Inr [feed_article ''markets'' ''Copper demand rises'',
             feed_article ''markets'' ''Banks report profits'',
             feed_article ''markets'' ''Retail sales dip'',
             feed_article ''science'' ''New comet spotted''],
        [RateLimit, FeedparserParse (rss_url ''markets''),
         RateLimit, FeedparserParse (rss_url ''science'')])"
proof -
  have c: "news_categories sample_config = [''markets'', ''science'']"
    and m: "max_articles sample_config = 4"
    by (simp_all add: sample_config_def)
  from fetch_trending_news_order [of sample_env sample_config "[]"
      "''markets''" "''science''"] c m sample_markets sample_science sample_unique
  have "fetch_trending_news sample_env sample_config []
     = (Inr [feed_article ''markets'' ''Copper demand rises'',
             feed_article ''markets'' ''Banks report profits'',
             feed_article ''markets'' ''Retail sales dip'',
             feed_article ''science'' ''New comet spotted''],
        [RateLimit, FeedparserParse (rss_url ''markets''),
         RateLimit, FeedparserParse (rss_url ''science'')])"
    by blast
  with c m sample_markets sample_science show ?thesis by blast
qed

end
